theory Spec2Isabelle
  imports Main "HOL-Library.Sublist"
begin

section \<open>Utils (static/js/utils.js)\<close>

subsection \<open>truncateText\<close>

text \<open>
  JavaScript's \<^verbatim>\<open>String.prototype.substring(a, b)\<close>: both indices are clamped to
  the range from 0 to the length of the string and swapped when the first exceeds the second.
  Strings are lists of code units and indices are integers.
\<close>

definition substring :: "string \<Rightarrow> int \<Rightarrow> int \<Rightarrow> string" where
  "substring s a b =
     (let len = int (length s);
          a' = max 0 (min a len);
          b' = max 0 (min b len);
          lo = min a' b';
          hi = max a' b'
      in take (nat (hi - lo)) (drop (nat lo) s))"

text \<open>
  \<^verbatim>\<open>
  static truncateText(text, maxLength, suffix = '...') {
      if (text.length <= maxLength) return text;
      return text.substring(0, maxLength - suffix.length) + suffix;
  }
  \<close>
\<close>

definition truncateText :: "string \<Rightarrow> int \<Rightarrow> string \<Rightarrow> string" where
  "truncateText text maxLength sfx =
     (if int (length text) \<le> maxLength then text
      else substring text 0 (maxLength - int (length sfx)) @ sfx)"

text \<open>The call with two arguments takes the default suffix of three dots.\<close>

definition truncateText_default :: "string \<Rightarrow> int \<Rightarrow> string" where
  "truncateText_default text maxLength = truncateText text maxLength ''...''"

subsection \<open>Local storage with expiration\<close>

text \<open>
  The browser's \<^verbatim>\<open>localStorage\<close> is a map from keys to strings. The wrapper only ever stores
  the JSON text of an object with the two fields \<^verbatim>\<open>value\<close> and \<^verbatim>\<open>expiry\<close>; the model keeps
  that object in place of its JSON text, for values that \<^verbatim>\<open>JSON.stringify\<close> and
  \<^verbatim>\<open>JSON.parse\<close> carry unchanged. Times are epoch milliseconds; the clock reading
  \<^verbatim>\<open>new Date().getTime()\<close> is the parameter \<open>now\<close>.
\<close>

record 'v item =
  item_value :: 'v
  item_expiry :: int

type_synonym 'v localStorage = "string \<rightharpoonup> 'v item"

text \<open>
  \<^verbatim>\<open>
  static setStorageWithExpiry(key, value, ttl) {
      const now = new Date();
      const item = { value: value, expiry: now.getTime() + ttl };
      localStorage.setItem(key, JSON.stringify(item));
  }
  \<close>
\<close>

definition setStorageWithExpiry ::
  "int \<Rightarrow> string \<Rightarrow> 'v \<Rightarrow> int \<Rightarrow> 'v localStorage \<Rightarrow> 'v localStorage" where
  "setStorageWithExpiry now key v ttl ls =
     ls(key \<mapsto> \<lparr>item_value = v, item_expiry = now + ttl\<rparr>)"

text \<open>
  \<^verbatim>\<open>
  static getStorageWithExpiry(key) {
      const itemStr = localStorage.getItem(key);
      if (!itemStr) return null;
      const item = JSON.parse(itemStr);
      const now = new Date();
      if (now.getTime() > item.expiry) {
          localStorage.removeItem(key);
          return null;
      }
      return item.value;
  }
  \<close>
  The result pairs what the call returns (\<open>None\<close> for \<^verbatim>\<open>null\<close>) with the storage it leaves.
\<close>

definition getStorageWithExpiry ::
  "int \<Rightarrow> string \<Rightarrow> 'v localStorage \<Rightarrow> 'v option \<times> 'v localStorage" where
  "getStorageWithExpiry now key ls =
     (case ls key of
        None \<Rightarrow> (None, ls)
      | Some item \<Rightarrow>
          if now > item_expiry item then (None, ls(key := None))
          else (Some (item_value item), ls))"

subsection \<open>extractMentions\<close>

text \<open>
  The class \<^verbatim>\<open>\w\<close> of a regular expression without the unicode flag: ASCII letters,
  digits and the underscore. Every other code unit is outside the class, whatever its value.
\<close>

definition is_word_char :: "char \<Rightarrow> bool" where
  "is_word_char c =
     (let n = (of_char c :: nat)
      in (48 \<le> n \<and> n \<le> 57) \<or> (65 \<le> n \<and> n \<le> 90) \<or> n = 95 \<or> (97 \<le> n \<and> n \<le> 122))"

text \<open>
  \<^verbatim>\<open>
  const mentionRegex = /@(\w+)/g;
  const mentions = [];
  let match;
  while ((match = mentionRegex.exec(text)) !== null) {
      mentions.push(match[1]);
  }
  \<close>
  Each \<^verbatim>\<open>exec\<close> finds the leftmost \<^verbatim>\<open>@\<close> at or after \<^verbatim>\<open>lastIndex\<close> that is followed by
  a word character, captures the longest run of word characters after it (the quantifier is
  greedy) and moves \<^verbatim>\<open>lastIndex\<close> behind the run. \<open>exec_loop\<close> is the array \<^verbatim>\<open>mentions\<close>
  the loop builds from the remaining text.
\<close>

function exec_loop :: "string \<Rightarrow> string list" where
  "exec_loop [] = []"
| "exec_loop (c # cs) =
     (if c = CHR ''@'' \<and> takeWhile is_word_char cs \<noteq> []
      then takeWhile is_word_char cs # exec_loop (dropWhile is_word_char cs)
      else exec_loop cs)"
  by pat_completeness auto
termination
  by (relation "measure length") (auto simp: le_imp_less_Suc length_dropWhile_le)

text \<open>
  A JavaScript \<^verbatim>\<open>Set\<close> keeps its elements in insertion order; \<^verbatim>\<open>add\<close> of an element it
  already holds changes nothing. \<^verbatim>\<open>new Set(xs)\<close> adds the elements of \<open>xs\<close> from left to
  right, and spreading the set lists it in insertion order.
\<close>

definition Set_add :: "'a list \<Rightarrow> 'a \<Rightarrow> 'a list" where
  "Set_add s x = (if x \<in> set s then s else s @ [x])"

definition new_Set :: "'a list \<Rightarrow> 'a list" where
  "new_Set xs = foldl Set_add [] xs"

text \<open>\<^verbatim>\<open>return [...new Set(mentions)];\<close>\<close>

definition extractMentions :: "string \<Rightarrow> string list" where
  "extractMentions text = new_Set (exec_loop text)"

text \<open>
  What the function is compared with, by the positions of the text. A mention starts at
  position \<open>p\<close> when the character there is an \<^verbatim>\<open>@\<close> and a word character follows; the
  mention is the longest run of word characters after the \<^verbatim>\<open>@\<close>. \<open>mentions_by_position\<close>
  lists the mentions of the text from the first position to the last, and \<open>first_occurrences\<close>
  keeps of a list the elements that no equal element precedes.
\<close>

definition mention_at :: "string \<Rightarrow> nat \<Rightarrow> string" where
  "mention_at str p = takeWhile is_word_char (drop (Suc p) str)"

definition mention_starts :: "string \<Rightarrow> nat \<Rightarrow> bool" where
  "mention_starts str p = (p < length str \<and> str ! p = CHR ''@'' \<and> mention_at str p \<noteq> [])"

definition mentions_by_position :: "string \<Rightarrow> string list" where
  "mentions_by_position str = map (mention_at str) (filter (mention_starts str) [0..<length str])"

definition first_occurrences :: "'a list \<Rightarrow> 'a list" where
  "first_occurrences xs =
     map (\<lambda>i. xs ! i) (filter (\<lambda>i. xs ! i \<notin> set (take i xs)) [0..<length xs])"

section \<open>The browser's WebSocket and timers\<close>

text \<open>
  What the two channel clients use of the browser is modelled after the WebSocket interface of
  the HTML standard. A socket is in one of four ready states.
\<close>

datatype readyState = CONNECTING | OPEN | CLOSING | CLOSED

datatype js_error = InvalidStateError | SyntaxError | TypeError | ReferenceError

text \<open>
  A JavaScript string is a sequence of UTF-16 code units, numbers below 65536. Where a client
  looks at the characters of a text that the user typed, the text is a list of code units.
\<close>

type_synonym code_units = "nat list"

text \<open>
  An outbound frame is the JSON text of an object with a \<^verbatim>\<open>type\<close> and further fields; the
  model keeps the type and the fields the clients send with it.
\<close>

datatype payload =
    TypingData bool "string option"
  | StatusData string
  | HeartbeatData int
  | ChatData code_units "string option"
  | TypingFlag bool

record frame =
  frame_type :: string
  frame_data :: payload

text \<open>
  \<^verbatim>\<open>socket.send(data)\<close>: in state CONNECTING it throws an InvalidStateError; in state OPEN
  the frame is transmitted; in the states CLOSING and CLOSED the data is discarded and the
  call returns. The first component is the exception thrown, if any, the second the frames
  transmitted so far.
\<close>

definition browser_send :: "readyState \<Rightarrow> frame \<Rightarrow> frame list \<Rightarrow> js_error option \<times> frame list" where
  "browser_send rs f sent =
     (case rs of
        CONNECTING \<Rightarrow> (Some InvalidStateError, sent)
      | OPEN \<Rightarrow> (None, sent @ [f])
      | CLOSING \<Rightarrow> (None, sent)
      | CLOSED \<Rightarrow> (None, sent))"

text \<open>
  \<^verbatim>\<open>socket.close()\<close>: nothing happens to a socket that is closing or closed; any other
  socket starts to close.
\<close>

definition browser_close :: "readyState \<Rightarrow> readyState" where
  "browser_close rs = (if rs = CLOSING \<or> rs = CLOSED then rs else CLOSING)"

text \<open>
  What \<^verbatim>\<open>JSON.parse\<close> makes of the text of an inbound frame: a SyntaxError for malformed
  text, otherwise the decoded datum. Of a decoded datum the dispatchers read the property
  \<^verbatim>\<open>type\<close> only: \<open>JData ty body\<close> is a datum other than \<^verbatim>\<open>null\<close> whose \<^verbatim>\<open>type\<close> is the
  string \<open>ty\<close> (\<open>None\<close> when there is no such property or it is not a string), \<open>body\<close>
  standing for the rest of it. Reading a property of \<^verbatim>\<open>null\<close> throws a TypeError.
\<close>

datatype json = JNull | JData "string option" string

datatype frame_text = Malformed string | WellFormed json

definition JSON_parse :: "frame_text \<Rightarrow> js_error + json" where
  "JSON_parse t = (case t of Malformed _ \<Rightarrow> Inl SyntaxError | WellFormed d \<Rightarrow> Inr d)"

text \<open>What the clients write to the console, one constructor for each call site.\<close>

datatype console_entry =
    Log_connected
  | Error_parsing
  | Log_disconnected
  | Error_socket
  | Log_unknown_type "string option"
  | Warn_not_connected string payload
  | Log_attempting nat nat
  | Error_max_reached
  | Error_connection
  | Log_presence string
  | Log_reaction string

text \<open>
  The handlers behind the dispatchers act on the page. The model records each invocation,
  the handler and the body of the message it was given, in a trace; an entry says that the
  handler was called, not that it returned. What a handler's work on the document comes to
  depends on the document and on the message: the model takes it from the surroundings, as a
  function \<open>page\<close> that tells for a handler and a message body which exception the work
  throws, \<open>None\<close> when it returns.
\<close>

datatype handler =
    HandleUserStatus | HandleNotification | HandleChatMessage | HandleTypingIndicator
  | HandleUserPresence
  | AddMessage | UpdateTypingIndicator | UpdateUserPresence | UpdateReaction

text \<open>
  A toast shown through \<^verbatim>\<open>window.accountsManager.showToast(title, message, level)\<close>;
  \<open>DataToast body\<close> takes the three from the fields of an inbound notification.
\<close>

datatype toast = Toast string string string | DataToast string

text \<open>
  The Notification interface of the browser as \<^verbatim>\<open>handleNotification\<close> meets it: absent
  (reading \<^verbatim>\<open>Notification.permission\<close> throws a ReferenceError), or present, with the
  permission granted or not and with a constructor that returns or throws a TypeError.
\<close>

datatype notification_api = NoNotification | HasNotification bool bool

section \<open>WebSocketManager (static/js/websocket.js)\<close>

text \<open>
  The fields of the manager, followed by what it has done to its surroundings:
  \<^item> \<open>socket\<close>: \<open>None\<close> for \<^verbatim>\<open>null\<close>, otherwise the ready state of the socket the field holds;
  \<^item> \<open>heartbeatTimer\<close>: \<open>None\<close> for \<^verbatim>\<open>null\<close>, otherwise the handle \<^verbatim>\<open>setInterval\<close> returned;
  \<^item> \<open>intervals\<close>: the handles of the intervals of the browser that are live;
  \<^item> \<open>next_handle\<close>: the handle the next timer gets (handles are positive);
  \<^item> \<open>timeouts\<close>: the delays of the pending \<^verbatim>\<open>setTimeout\<close> callbacks, each a call of
    \<^verbatim>\<open>connect\<close>;
  \<^item> \<open>scheduled\<close>: the delays of all reconnect attempts scheduled so far, in order;
  \<^item> \<open>wire\<close>: the frames transmitted; \<open>console\<close>, \<open>ui\<close>: the traces; \<open>toasts\<close>: the calls
    of \<^verbatim>\<open>showToast\<close>;
  \<^item> \<open>accountsManager\<close>: whether \<^verbatim>\<open>window.accountsManager\<close> is set;
  \<^item> \<open>page\<close> and \<open>notificationApi\<close>: the document and the Notification interface, as above.
\<close>

record ws_manager =
  socket :: "readyState option"
  reconnectAttempts :: nat
  heartbeatTimer :: "nat option"
  intervals :: "nat list"
  next_handle :: nat
  timeouts :: "nat list"
  scheduled :: "nat list"
  wire :: "frame list"
  console :: "console_entry list"
  ui :: "(handler \<times> string) list"
  toasts :: "toast list"
  accountsManager :: bool
  page :: "handler \<Rightarrow> string \<Rightarrow> js_error option"
  notificationApi :: notification_api

text \<open>
  The constructor sets these three fields once and nothing assigns them again:
  \<^verbatim>\<open>
  this.maxReconnectAttempts = 5;
  this.reconnectInterval = 5000;
  this.heartbeatInterval = 30000;
  \<close>
\<close>

definition maxReconnectAttempts :: nat where
  "maxReconnectAttempts = 5"

definition reconnectInterval :: nat where
  "reconnectInterval = 5000"

definition heartbeatInterval :: nat where
  "heartbeatInterval = 30000"

text \<open>The hooks \<^verbatim>\<open>onConnect\<close>, \<^verbatim>\<open>onDisconnect\<close> and \<^verbatim>\<open>onError\<close> have empty bodies.\<close>

definition onConnect :: "ws_manager \<Rightarrow> ws_manager" where
  "onConnect s = s"

definition onDisconnect :: "ws_manager \<Rightarrow> ws_manager" where
  "onDisconnect s = s"

definition onError :: "ws_manager \<Rightarrow> ws_manager" where
  "onError s = s"

text \<open>
  \<^verbatim>\<open>
  sendMessage(type, data) {
      if (this.socket && this.socket.readyState === WebSocket.OPEN) {
          this.socket.send(JSON.stringify({ type: type, ...data }));
      } else {
          console.warn('WebSocket not connected, message not sent:', type, data);
      }
  }
  \<close>
\<close>

definition sendMessage :: "string \<Rightarrow> payload \<Rightarrow> ws_manager \<Rightarrow> js_error option \<times> ws_manager" where
  "sendMessage ty d s =
     (if socket s \<noteq> None \<and> socket s = Some OPEN
      then (case browser_send OPEN \<lparr>frame_type = ty, frame_data = d\<rparr> (wire s) of
              (e, w) \<Rightarrow> (e, s\<lparr>wire := w\<rparr>))
      else (None, s\<lparr>console := console s @ [Warn_not_connected ty d]\<rparr>))"

text \<open>
  \<^verbatim>\<open>
  startHeartbeat() {
      this.heartbeatTimer = setInterval(() => {
          this.sendMessage('heartbeat', { timestamp: Date.now() });
      }, this.heartbeatInterval);
  }
  stopHeartbeat() {
      if (this.heartbeatTimer) {
          clearInterval(this.heartbeatTimer);
          this.heartbeatTimer = null;
      }
  }
  \<close>
  A handle of 0 would be falsy; the browser hands out positive handles.
\<close>

definition startHeartbeat :: "ws_manager \<Rightarrow> ws_manager" where
  "startHeartbeat s =
     s\<lparr>heartbeatTimer := Some (next_handle s),
       intervals := intervals s @ [next_handle s],
       next_handle := Suc (next_handle s)\<rparr>"

definition stopHeartbeat :: "ws_manager \<Rightarrow> ws_manager" where
  "stopHeartbeat s =
     (case heartbeatTimer s of
        None \<Rightarrow> s
      | Some h \<Rightarrow>
          if h = 0 then s
          else s\<lparr>intervals := removeAll h (intervals s), heartbeatTimer := None\<rparr>)"

text \<open>
  \<^verbatim>\<open>
  sendTypingIndicator(isTyping, roomId = null) {
      this.sendMessage('typing', { is_typing: isTyping, room_id: roomId });
  }
  sendStatusUpdate(status) {
      this.sendMessage('status_update', { status: status });
  }
  \<close>
\<close>

definition sendTypingIndicator :: "bool \<Rightarrow> string option \<Rightarrow> ws_manager \<Rightarrow> js_error option \<times> ws_manager" where
  "sendTypingIndicator typing roomId s = sendMessage ''typing'' (TypingData typing roomId) s"

definition sendStatusUpdate :: "string \<Rightarrow> ws_manager \<Rightarrow> js_error option \<times> ws_manager" where
  "sendStatusUpdate status s = sendMessage ''status_update'' (StatusData status) s"

text \<open>The callback of the interval; \<open>now\<close> is the reading of \<^verbatim>\<open>Date.now()\<close>.\<close>

definition heartbeat_callback :: "int \<Rightarrow> ws_manager \<Rightarrow> js_error option \<times> ws_manager" where
  "heartbeat_callback now s = sendMessage ''heartbeat'' (HeartbeatData now) s"

text \<open>
  \<^verbatim>\<open>
  onMaxReconnectAttemptsReached() {
      if (window.accountsManager) {
          window.accountsManager.showToast('Connection Lost',
              'Unable to reconnect to server. Please refresh the page.', 'error');
      }
  }
  \<close>
\<close>

definition connection_lost :: toast where
  "connection_lost =
     Toast ''Connection Lost'' ''Unable to reconnect to server. Please refresh the page.'' ''error''"

definition onMaxReconnectAttemptsReached :: "ws_manager \<Rightarrow> ws_manager" where
  "onMaxReconnectAttemptsReached s =
     (if accountsManager s then s\<lparr>toasts := toasts s @ [connection_lost]\<rparr> else s)"

text \<open>
  \<^verbatim>\<open>
  handleReconnect() {
      if (this.reconnectAttempts < this.maxReconnectAttempts) {
          this.reconnectAttempts++;
          console.log(`Attempting to reconnect... (...)`);
          setTimeout(() => { this.connect(); },
                     this.reconnectInterval * this.reconnectAttempts);
      } else {
          console.error('Max reconnection attempts reached');
          this.onMaxReconnectAttemptsReached();
      }
  }
  \<close>
\<close>

definition handleReconnect :: "ws_manager \<Rightarrow> ws_manager" where
  "handleReconnect s =
     (if reconnectAttempts s < maxReconnectAttempts
      then (let n = Suc (reconnectAttempts s)
            in s\<lparr>reconnectAttempts := n,
                 console := console s @ [Log_attempting n maxReconnectAttempts],
                 timeouts := timeouts s @ [reconnectInterval * n],
                 scheduled := scheduled s @ [reconnectInterval * n]\<rparr>)
      else onMaxReconnectAttemptsReached (s\<lparr>console := console s @ [Error_max_reached]\<rparr>))"

text \<open>
  \<^verbatim>\<open>
  connect() {
      try {
          this.socket = new WebSocket(this.wsUrl);
          this.setupEventHandlers();
      } catch (error) {
          console.error('WebSocket connection error:', error);
          this.handleReconnect();
      }
  }
  \<close>
  \<open>ctor_ok\<close> tells whether the constructor of the socket returns (a new socket is in state
  CONNECTING) or throws. \<^verbatim>\<open>setupEventHandlers\<close> assigns the four handlers below to the socket.
\<close>

definition setupEventHandlers :: "ws_manager \<Rightarrow> ws_manager" where
  "setupEventHandlers s = s"

definition connect :: "bool \<Rightarrow> ws_manager \<Rightarrow> ws_manager" where
  "connect ctor_ok s =
     (if ctor_ok then setupEventHandlers (s\<lparr>socket := Some CONNECTING\<rparr>)
      else handleReconnect (s\<lparr>console := console s @ [Error_connection]\<rparr>))"

text \<open>
  The handlers of the dispatcher; each returns the exception it throws, if any, and the state.
  \<^verbatim>\<open>
  handleUserStatus(data) {
      const userElements = document.querySelectorAll(`[data-user-id="${data.user_id}"]`);
      userElements.forEach(element => { ... });
  }
  handleNotification(data) {
      if (Notification.permission === 'granted') {
          new Notification(data.title, { body: data.message, icon: ... });
      }
      if (window.accountsManager) {
          window.accountsManager.showToast(data.title, data.message, data.level || 'info');
      }
      this.updateNotificationCount(data.unread_count);
  }
  handleChatMessage(data) {
      const event = new CustomEvent('chatMessage', { detail: data });
      document.dispatchEvent(event);
  }
  \<close>
  \<^verbatim>\<open>handleTypingIndicator\<close> and \<^verbatim>\<open>handleUserPresence\<close> dispatch a custom event like
  \<^verbatim>\<open>handleChatMessage\<close>; dispatching does not throw. The query of \<^verbatim>\<open>handleUserStatus\<close>
  throws for a selector that is no selector. \<^verbatim>\<open>updateNotificationCount\<close> guards its one
  element and sets its text.
\<close>

definition invoke :: "handler \<Rightarrow> string \<Rightarrow> ws_manager \<Rightarrow> ws_manager" where
  "invoke h body s = s\<lparr>ui := ui s @ [(h, body)]\<rparr>"

definition handleUserStatus :: "string \<Rightarrow> ws_manager \<Rightarrow> js_error option \<times> ws_manager" where
  "handleUserStatus body s = (page s HandleUserStatus body, invoke HandleUserStatus body s)"

definition handleNotification :: "string \<Rightarrow> ws_manager \<Rightarrow> js_error option \<times> ws_manager" where
  "handleNotification body s =
     (let s1 = invoke HandleNotification body s
      in case notificationApi s1 of
           NoNotification \<Rightarrow> (Some ReferenceError, s1)
         | HasNotification granted ctor_ok \<Rightarrow>
             if granted \<and> \<not> ctor_ok then (Some TypeError, s1)
             else (None, if accountsManager s1 then s1\<lparr>toasts := toasts s1 @ [DataToast body]\<rparr>
                         else s1))"

definition handleChatMessage :: "string \<Rightarrow> ws_manager \<Rightarrow> js_error option \<times> ws_manager" where
  "handleChatMessage body s = (None, invoke HandleChatMessage body s)"

definition handleTypingIndicator :: "string \<Rightarrow> ws_manager \<Rightarrow> js_error option \<times> ws_manager" where
  "handleTypingIndicator body s = (None, invoke HandleTypingIndicator body s)"

definition handleUserPresence :: "string \<Rightarrow> ws_manager \<Rightarrow> js_error option \<times> ws_manager" where
  "handleUserPresence body s = (None, invoke HandleUserPresence body s)"

text \<open>
  \<^verbatim>\<open>
  handleMessage(data) {
      switch (data.type) {
          case 'user_status':      this.handleUserStatus(data); break;
          case 'notification':     this.handleNotification(data); break;
          case 'chat_message':     this.handleChatMessage(data); break;
          case 'typing_indicator': this.handleTypingIndicator(data); break;
          case 'user_joined':
          case 'user_left':        this.handleUserPresence(data); break;
          default: console.log('Unknown message type:', data.type);
      }
  }
  \<close>
\<close>

definition handleMessage :: "json \<Rightarrow> ws_manager \<Rightarrow> js_error option \<times> ws_manager" where
  "handleMessage d s =
     (case d of
        JNull \<Rightarrow> (Some TypeError, s)
      | JData ty body \<Rightarrow>
          if ty = Some ''user_status'' then handleUserStatus body s
          else if ty = Some ''notification'' then handleNotification body s
          else if ty = Some ''chat_message'' then handleChatMessage body s
          else if ty = Some ''typing_indicator'' then handleTypingIndicator body s
          else if ty = Some ''user_joined'' \<or> ty = Some ''user_left''
            then handleUserPresence body s
          else (None, s\<lparr>console := console s @ [Log_unknown_type ty]\<rparr>))"

text \<open>
  \<^verbatim>\<open>
  this.socket.onopen = (event) => {
      console.log('WebSocket connected');
      this.reconnectAttempts = 0;
      this.startHeartbeat();
      this.onConnect(event);
  };
  \<close>
\<close>

definition onopen :: "ws_manager \<Rightarrow> ws_manager" where
  "onopen s =
     onConnect (startHeartbeat (s\<lparr>console := console s @ [Log_connected],
                                  reconnectAttempts := 0\<rparr>))"

text \<open>
  \<^verbatim>\<open>
  this.socket.onmessage = (event) => {
      try {
          const data = JSON.parse(event.data);
          this.handleMessage(data);
      } catch (error) {
          console.error('Error parsing WebSocket message:', error);
      }
  };
  \<close>
  Whatever is thrown inside is caught, so the handler returns a state and no exception.
\<close>

definition onmessage :: "frame_text \<Rightarrow> ws_manager \<Rightarrow> ws_manager" where
  "onmessage t s =
     (case JSON_parse t of
        Inl e \<Rightarrow> s\<lparr>console := console s @ [Error_parsing]\<rparr>
      | Inr d \<Rightarrow>
          (case handleMessage d s of
             (Some e, s') \<Rightarrow> s'\<lparr>console := console s' @ [Error_parsing]\<rparr>
           | (None, s') \<Rightarrow> s'))"

text \<open>
  \<^verbatim>\<open>
  this.socket.onclose = (event) => {
      console.log('WebSocket disconnected:', event.code, event.reason);
      this.stopHeartbeat();
      this.onDisconnect(event);
      if (!event.wasClean) {
          this.handleReconnect();
      }
  };
  this.socket.onerror = (error) => {
      console.error('WebSocket error:', error);
      this.onError(error);
  };
  \<close>
\<close>

definition onclose :: "bool \<Rightarrow> ws_manager \<Rightarrow> ws_manager" where
  "onclose wasClean s =
     (let s1 = onDisconnect (stopHeartbeat (s\<lparr>console := console s @ [Log_disconnected]\<rparr>))
      in if \<not> wasClean then handleReconnect s1 else s1)"

definition onerror :: "ws_manager \<Rightarrow> ws_manager" where
  "onerror s = onError (s\<lparr>console := console s @ [Error_socket]\<rparr>)"

text \<open>
  \<^verbatim>\<open>
  disconnect() {
      this.stopHeartbeat();
      if (this.socket) {
          this.socket.close();
      }
  }
  \<close>
\<close>

definition disconnect :: "ws_manager \<Rightarrow> ws_manager" where
  "disconnect s =
     (let s1 = stopHeartbeat s
      in case socket s1 of
           None \<Rightarrow> s1
         | Some rs \<Rightarrow> s1\<lparr>socket := Some (browser_close rs)\<rparr>)"

text \<open>
  The constructor initialises the fields and calls \<^verbatim>\<open>connect\<close>. \<open>am\<close> tells whether
  \<^verbatim>\<open>window.accountsManager\<close> is set on the page, \<open>p\<close> and \<open>n\<close> are the document and the
  Notification interface the manager finds.
\<close>

definition fresh_on :: "(handler \<Rightarrow> string \<Rightarrow> js_error option) \<Rightarrow> notification_api \<Rightarrow> bool \<Rightarrow> ws_manager" where
  "fresh_on p n am =
     \<lparr>socket = None, reconnectAttempts = 0, heartbeatTimer = None, intervals = [],
      next_handle = 1, timeouts = [], scheduled = [], wire = [], console = [], ui = [],
      toasts = [], accountsManager = am, page = p, notificationApi = n\<rparr>"

definition constructor_on ::
  "(handler \<Rightarrow> string \<Rightarrow> js_error option) \<Rightarrow> notification_api \<Rightarrow> bool \<Rightarrow> bool \<Rightarrow> ws_manager" where
  "constructor_on p n ctor_ok am = connect ctor_ok (fresh_on p n am)"

text \<open>
  The sample page of the runs below: no handler throws on it, and the Notification interface
  is there with no permission granted.
\<close>

definition fresh :: "bool \<Rightarrow> ws_manager" where
  "fresh am = fresh_on (\<lambda>h body. None) (HasNotification False True) am"

definition constructor :: "bool \<Rightarrow> bool \<Rightarrow> ws_manager" where
  "constructor ctor_ok am = connect ctor_ok (fresh am)"

subsection \<open>The event loop\<close>

text \<open>
  Everything runs as the reaction to one event at a time. The events of a manager are those
  of the socket the manager holds, the two kinds of timer callbacks, and the calls of
  \<^verbatim>\<open>sendMessage\<close> and \<^verbatim>\<open>disconnect\<close> from the page:
  \<^item> \<open>EvOpen\<close>: the connection is established; the socket turns OPEN and \<^verbatim>\<open>onopen\<close> runs.
    Only a socket in state CONNECTING opens.
  \<^item> \<open>EvMessage t\<close>: a frame with text \<open>t\<close> arrives on an open socket.
  \<^item> \<open>EvClosing\<close>: the server starts the closing handshake; the browser turns the open socket
    CLOSING and calls no handler.
  \<^item> \<open>EvClose wasClean\<close>: the connection is closed; the socket turns CLOSED and \<^verbatim>\<open>onclose\<close>
    runs with the flag of the event. A socket closes once.
  \<^item> \<open>EvError\<close>: an error event on a socket that is not closed.
  \<^item> \<open>EvTimeout i ctor_ok\<close>: the pending reconnect callback at position \<open>i\<close> runs
    \<^verbatim>\<open>connect\<close>.
  \<^item> \<open>EvHeartbeat h now\<close>: the live interval with handle \<open>h\<close> fires at time \<open>now\<close>.
  \<^item> \<open>CallSend ty d\<close> and \<open>CallDisconnect\<close>: the calls from the page.
  \<open>deliver\<close> is \<open>None\<close> when the event cannot occur in the state. An exception that escapes a
  callback is reported by the browser and the loop goes on.

  A call of \<^verbatim>\<open>connect\<close> from the page is no event of this loop: in the repository the
  constructor and the reconnect callback are the only callers, and the socket they replace is
  absent or CLOSED (see \<open>timers_owned\<close> below), so no event of an earlier socket is left to
  come. What \<^verbatim>\<open>connect\<close> does to a manager whose socket is open is stated apart, for the
  function itself.
\<close>

datatype event =
    EvOpen
  | EvMessage frame_text
  | EvClosing
  | EvClose bool
  | EvError
  | EvTimeout nat bool
  | EvHeartbeat nat int
  | CallSend string payload
  | CallDisconnect

fun deliver :: "event \<Rightarrow> ws_manager \<Rightarrow> ws_manager option" where
  "deliver EvOpen s =
     (if socket s = Some CONNECTING then Some (onopen (s\<lparr>socket := Some OPEN\<rparr>)) else None)"
| "deliver (EvMessage t) s =
     (if socket s = Some OPEN then Some (onmessage t s) else None)"
| "deliver EvClosing s =
     (if socket s = Some OPEN then Some (s\<lparr>socket := Some CLOSING\<rparr>) else None)"
| "deliver (EvClose wasClean) s =
     (if socket s = Some CONNECTING \<or> socket s = Some OPEN \<or> socket s = Some CLOSING
      then Some (onclose wasClean (s\<lparr>socket := Some CLOSED\<rparr>)) else None)"
| "deliver EvError s =
     (if socket s = Some CONNECTING \<or> socket s = Some OPEN \<or> socket s = Some CLOSING
      then Some (onerror s) else None)"
| "deliver (EvTimeout i ctor_ok) s =
     (if i < length (timeouts s)
      then Some (connect ctor_ok (s\<lparr>timeouts := take i (timeouts s) @ drop (Suc i) (timeouts s)\<rparr>))
      else None)"
| "deliver (EvHeartbeat h now) s =
     (if h \<in> set (intervals s) then Some (snd (heartbeat_callback now s)) else None)"
| "deliver (CallSend ty d) s = Some (snd (sendMessage ty d s))"
| "deliver CallDisconnect s = Some (disconnect s)"

fun run :: "event list \<Rightarrow> ws_manager \<Rightarrow> ws_manager option" where
  "run [] s = Some s"
| "run (e # es) s = (case deliver e s of None \<Rightarrow> None | Some s' \<Rightarrow> run es s')"

text \<open>The states a manager gets into: from its construction on any page, by events.\<close>

inductive reachable :: "ws_manager \<Rightarrow> bool" where
  reachable_init: "reachable (constructor_on p n ctor_ok am)"
| reachable_step: "reachable s \<Longrightarrow> deliver e s = Some s' \<Longrightarrow> reachable s'"


subsection \<open>Invariants of the event loop\<close>

text \<open>
  The ownership of the timers: the only live interval is the one whose handle the field
  \<open>heartbeatTimer\<close> holds, it is live whenever the socket is OPEN and only while the socket is
  OPEN or CLOSING, handles are positive, and a reconnect is pending only while the socket is
  absent or CLOSED, one at a time.
\<close>

definition timers_owned :: "ws_manager \<Rightarrow> bool" where
  "timers_owned s =
     (intervals s = (case heartbeatTimer s of None \<Rightarrow> [] | Some h \<Rightarrow> [h]) \<and>
      (socket s \<noteq> Some OPEN \<or> heartbeatTimer s \<noteq> None) \<and>
      (heartbeatTimer s = None \<or> socket s = Some OPEN \<or> socket s = Some CLOSING) \<and>
      (case heartbeatTimer s of None \<Rightarrow> True | Some h \<Rightarrow> 0 < h) \<and>
      0 < next_handle s \<and>
      length (timeouts s) \<le> 1 \<and>
      (timeouts s = [] \<or> socket s = None \<or> socket s = Some CLOSED))"

text \<open>A manager at rest: no socket in use and no timer pending or live.\<close>

definition at_rest :: "ws_manager \<Rightarrow> bool" where
  "at_rest s =
     ((socket s = None \<or> socket s = Some CLOSED) \<and> timeouts s = [] \<and> intervals s = [])"

subsection \<open>A sample run\<close>

text \<open>Five unclean closes, each followed by the reconnect the manager scheduled.\<close>

definition five_failures :: "event list" where
  "five_failures =
     [EvClose False, EvTimeout 0 True, EvClose False, EvTimeout 0 True, EvClose False,
      EvTimeout 0 True, EvClose False, EvTimeout 0 True, EvClose False, EvTimeout 0 True]"

section \<open>ChatRoomManager (the room-scoped client)\<close>

text \<open>
  The fields of the room client and its surroundings: the socket (the constructor always
  creates one), the typing flag, the message replied to, the text of the input element
  \<^verbatim>\<open>message-input\<close>, the pending and the scheduled reconnect delays, the frames transmitted,
  the traces, and the document: \<open>room_page\<close> tells which exception the work of a handler on the
  document throws for a message, \<open>room_finds\<close> whether the document has the message element
  that \<^verbatim>\<open>updateReaction\<close> looks up.
\<close>

record room_manager =
  room_socket :: readyState
  isTyping :: bool
  replyTo :: "string option"
  room_input :: code_units
  room_timeouts :: "nat list"
  room_scheduled :: "nat list"
  room_wire :: "frame list"
  room_console :: "console_entry list"
  room_ui :: "(handler \<times> string) list"
  room_page :: "handler \<Rightarrow> string \<Rightarrow> js_error option"
  room_finds :: "string \<Rightarrow> bool"

text \<open>
  \<^verbatim>\<open>
  connectWebSocket() {
      ...
      this.socket = new WebSocket(wsUrl);
      this.socket.onopen = () => { console.log('WebSocket connected'); };
      this.socket.onmessage = (event) => {
          const data = JSON.parse(event.data);
          this.handleWebSocketMessage(data);
      };
      this.socket.onclose = () => {
          console.log('WebSocket disconnected');
          setTimeout(() => this.connectWebSocket(), 3000);
      };
      this.socket.onerror = (error) => { console.error('WebSocket error:', error); };
  }
  \<close>
\<close>

definition connectWebSocket :: "room_manager \<Rightarrow> room_manager" where
  "connectWebSocket r = r\<lparr>room_socket := CONNECTING\<rparr>"

definition room_onopen :: "room_manager \<Rightarrow> room_manager" where
  "room_onopen r = r\<lparr>room_console := room_console r @ [Log_connected]\<rparr>"

text \<open>The handler of the close event takes no argument: it does not look at the event.\<close>

definition room_onclose :: "bool \<Rightarrow> room_manager \<Rightarrow> room_manager" where
  "room_onclose wasClean r =
     r\<lparr>room_console := room_console r @ [Log_disconnected],
       room_timeouts := room_timeouts r @ [3000],
       room_scheduled := room_scheduled r @ [3000]\<rparr>"

definition room_onerror :: "room_manager \<Rightarrow> room_manager" where
  "room_onerror r = r\<lparr>room_console := room_console r @ [Error_socket]\<rparr>"

text \<open>
  The handlers of the room dispatcher; each returns the exception it throws, if any, and the
  state.
  \<^verbatim>\<open>
  addMessage(message) {
      const messagesContainer = document.getElementById('chat-messages');
      const messageElement = this.createMessageElement(message);
      messagesContainer.appendChild(messageElement);
      this.scrollToBottom();
  }
  updateTypingIndicator(data) {
      const indicator = document.getElementById('typing-indicator');
      const usersSpan = document.getElementById('typing-users');
      if (data.is_typing) { usersSpan.textContent = data.username; ... } else { ... }
  }
  updateUserPresence(data) {
      console.log(`${data.username} ${data.action}`);
  }
  updateReaction(data) {
      const messageEl = document.querySelector(`[data-message-id="${data.message_id}"]`);
      if (messageEl) {
          console.log('Reaction updated:', data);
      }
  }
  \<close>
  \<^verbatim>\<open>addMessage\<close> throws a TypeError for a message without the fields it reads or on a
  document without the container, \<^verbatim>\<open>updateTypingIndicator\<close> on a document without its two
  elements, and the query of \<^verbatim>\<open>updateReaction\<close> for a selector that is no selector: all of
  this is \<open>room_page\<close>. \<^verbatim>\<open>updateUserPresence\<close> only logs.
\<close>

definition room_invoke :: "handler \<Rightarrow> string \<Rightarrow> room_manager \<Rightarrow> room_manager" where
  "room_invoke h body r = r\<lparr>room_ui := room_ui r @ [(h, body)]\<rparr>"

definition addMessage :: "string \<Rightarrow> room_manager \<Rightarrow> js_error option \<times> room_manager" where
  "addMessage body r = (room_page r AddMessage body, room_invoke AddMessage body r)"

definition updateTypingIndicator :: "string \<Rightarrow> room_manager \<Rightarrow> js_error option \<times> room_manager" where
  "updateTypingIndicator body r =
     (room_page r UpdateTypingIndicator body, room_invoke UpdateTypingIndicator body r)"

definition updateUserPresence :: "string \<Rightarrow> room_manager \<Rightarrow> js_error option \<times> room_manager" where
  "updateUserPresence body r =
     (let r1 = room_invoke UpdateUserPresence body r
      in (None, r1\<lparr>room_console := room_console r1 @ [Log_presence body]\<rparr>))"

definition updateReaction :: "string \<Rightarrow> room_manager \<Rightarrow> js_error option \<times> room_manager" where
  "updateReaction body r =
     (let r1 = room_invoke UpdateReaction body r
      in case room_page r1 UpdateReaction body of
           Some e \<Rightarrow> (Some e, r1)
         | None \<Rightarrow>
             (None, if room_finds r1 body
                    then r1\<lparr>room_console := room_console r1 @ [Log_reaction body]\<rparr>
                    else r1))"

text \<open>
  \<^verbatim>\<open>
  handleWebSocketMessage(data) {
      switch (data.type) {
          case 'chat_message':     this.addMessage(data.message); break;
          case 'typing_indicator': this.updateTypingIndicator(data); break;
          case 'user_presence':    this.updateUserPresence(data); break;
          case 'message_reaction': this.updateReaction(data); break;
      }
  }
  \<close>
  The switch has no default case.
\<close>

definition handleWebSocketMessage :: "json \<Rightarrow> room_manager \<Rightarrow> js_error option \<times> room_manager" where
  "handleWebSocketMessage d r =
     (case d of
        JNull \<Rightarrow> (Some TypeError, r)
      | JData ty body \<Rightarrow>
          if ty = Some ''chat_message'' then addMessage body r
          else if ty = Some ''typing_indicator'' then updateTypingIndicator body r
          else if ty = Some ''user_presence'' then updateUserPresence body r
          else if ty = Some ''message_reaction'' then updateReaction body r
          else (None, r))"

text \<open>The handler of the message event has no \<^verbatim>\<open>try\<close>: what is thrown inside escapes it.\<close>

definition room_onmessage :: "frame_text \<Rightarrow> room_manager \<Rightarrow> js_error option \<times> room_manager" where
  "room_onmessage t r =
     (case JSON_parse t of
        Inl e \<Rightarrow> (Some e, r)
      | Inr d \<Rightarrow> handleWebSocketMessage d r)"

text \<open>
  \<^verbatim>\<open>String.prototype.trim\<close> strips white space and line terminators from both ends. These
  are the code units of the tab, the line feed, the vertical tab, the form feed, the carriage
  return and the space, of the no-break space (U+00A0), of the other space separators of
  Unicode (U+1680, U+2000 to U+200A, U+202F, U+205F, U+3000), of the line and the paragraph
  separator (U+2028, U+2029) and of the byte order mark (U+FEFF).
\<close>

definition is_white_space :: "nat \<Rightarrow> bool" where
  "is_white_space c =
     ((9 \<le> c \<and> c \<le> 13) \<or> c = 32 \<or> c = 160 \<or> c = 5760 \<or> (8192 \<le> c \<and> c \<le> 8202) \<or>
      c = 8232 \<or> c = 8233 \<or> c = 8239 \<or> c = 8287 \<or> c = 12288 \<or> c = 65279)"

definition trim :: "code_units \<Rightarrow> code_units" where
  "trim s = rev (dropWhile is_white_space (rev (dropWhile is_white_space s)))"

text \<open>
  \<^verbatim>\<open>
  cancelReply() { this.replyTo = null; ... }
  stopTyping() {
      if (this.isTyping) {
          this.isTyping = false;
          this.socket.send(JSON.stringify({ type: 'typing', is_typing: false }));
      }
  }
  \<close>
\<close>

definition cancelReply :: "room_manager \<Rightarrow> room_manager" where
  "cancelReply r = r\<lparr>replyTo := None\<rparr>"

definition stopTyping :: "room_manager \<Rightarrow> js_error option \<times> room_manager" where
  "stopTyping r =
     (if isTyping r
      then (case browser_send (room_socket r)
                   \<lparr>frame_type = ''typing'', frame_data = TypingFlag False\<rparr> (room_wire r) of
              (e, w) \<Rightarrow> (e, r\<lparr>isTyping := False, room_wire := w\<rparr>))
      else (None, r))"

text \<open>
  \<^verbatim>\<open>
  sendMessage() {
      const input = document.getElementById('message-input');
      const content = input.value.trim();
      if (!content) return;
      const messageData = { type: 'chat_message', content: content, reply_to: this.replyTo };
      this.socket.send(JSON.stringify(messageData));
      input.value = '';
      this.cancelReply();
      this.stopTyping();
  }
  \<close>
  There is no check of the ready state before \<^verbatim>\<open>send\<close>; an exception of \<^verbatim>\<open>send\<close> ends
  the call.
\<close>

definition room_sendMessage :: "room_manager \<Rightarrow> js_error option \<times> room_manager" where
  "room_sendMessage r =
     (let content = trim (room_input r)
      in if content = [] then (None, r)
         else (case browser_send (room_socket r)
                      \<lparr>frame_type = ''chat_message'', frame_data = ChatData content (replyTo r)\<rparr>
                      (room_wire r) of
                 (Some e, w) \<Rightarrow> (Some e, r\<lparr>room_wire := w\<rparr>)
               | (None, w) \<Rightarrow> stopTyping (cancelReply (r\<lparr>room_wire := w, room_input := []\<rparr>))))"

text \<open>
  The constructor: the fields, then \<^verbatim>\<open>init\<close>, which calls \<^verbatim>\<open>connectWebSocket\<close>. \<open>typed\<close>
  is the text in the input element, \<open>p\<close> and \<open>f\<close> are the document.
\<close>

definition room_constructor_on ::
  "(handler \<Rightarrow> string \<Rightarrow> js_error option) \<Rightarrow> (string \<Rightarrow> bool) \<Rightarrow> code_units \<Rightarrow> room_manager" where
  "room_constructor_on p f typed =
     connectWebSocket
       \<lparr>room_socket = CLOSED, isTyping = False, replyTo = None, room_input = typed,
        room_timeouts = [], room_scheduled = [], room_wire = [], room_console = [],
        room_ui = [], room_page = p, room_finds = f\<rparr>"

text \<open>The sample document: no handler throws on it and it has no message element.\<close>

definition room_constructor :: "code_units \<Rightarrow> room_manager" where
  "room_constructor typed = room_constructor_on (\<lambda>h body. None) (\<lambda>body. False) typed"

section \<open>Properties of Utils\<close>

subsection \<open>truncateText\<close>

lemma substring_from_0: "0 \<le> n \<Longrightarrow> substring s 0 n = take (nat n) s"
  by (auto simp: substring_def Let_def min_def max_def)

text \<open>
  Claim C10. For every string and every maximal length that is at least the length of the
  suffix, \<open>truncateText\<close> returns the text unchanged when it is no longer than the maximal
  length; otherwise the result has exactly the maximal length, ends with the suffix and
  begins with a prefix of the text. The same holds with the default suffix.
\<close>

theorem truncateText_spec:
  assumes "int (length sfx) \<le> maxLength"
  shows "(int (length str) \<le> maxLength \<longrightarrow> truncateText str maxLength sfx = str) \<and>
         (maxLength < int (length str) \<longrightarrow>
            int (length (truncateText str maxLength sfx)) = maxLength \<and>
            suffix sfx (truncateText str maxLength sfx) \<and>
            (\<exists>p. prefix p str \<and> truncateText str maxLength sfx = p @ sfx)) \<and>
         (sfx = ''...'' \<longrightarrow> truncateText_default str maxLength = truncateText str maxLength sfx)"
  using assms
  by (auto simp: truncateText_def truncateText_default_def substring_from_0 take_is_prefix
      suffix_def)

theorem truncateText_spec_witness:
  "int (length ''...'') \<le> 8 \<and>
   truncateText ''short'' 8 ''...'' = ''short'' \<and>
   truncateText ''a longer sentence'' 8 ''...'' = ''a lon...'' \<and>
   int (length (truncateText ''a longer sentence'' 8 ''...'')) = 8 \<and>
   suffix ''...'' (truncateText ''a longer sentence'' 8 ''...'') \<and>
   truncateText_default ''a longer sentence'' 8 = truncateText ''a longer sentence'' 8 ''...''"
  using truncateText_spec [of "''...''" 8 "''short''"]
    truncateText_spec [of "''...''" 8 "''a longer sentence''"]
  by (simp add: truncateText_def substring_def)

subsection \<open>Local storage with expiration\<close>

text \<open>
  Claim C8. After a key is stored with value \<open>v\<close> and time-to-live \<open>ttl\<close> at time \<open>t\<close>, a read
  at a time strictly after \<open>t + ttl\<close> returns absent and removes the entry; a read at or
  before \<open>t + ttl\<close> returns \<open>v\<close> and leaves the storage as it is; a read of a key that holds
  no entry returns absent.
\<close>

theorem storage_expiry_spec:
  "(t + ttl < t' \<longrightarrow>
      fst (getStorageWithExpiry t' key (setStorageWithExpiry t key v ttl ls)) = None \<and>
      snd (getStorageWithExpiry t' key (setStorageWithExpiry t key v ttl ls)) key = None \<and>
      (\<forall>k. k \<noteq> key \<longrightarrow>
         snd (getStorageWithExpiry t' key (setStorageWithExpiry t key v ttl ls)) k = ls k)) \<and>
   (t' \<le> t + ttl \<longrightarrow>
      getStorageWithExpiry t' key (setStorageWithExpiry t key v ttl ls) =
        (Some v, setStorageWithExpiry t key v ttl ls)) \<and>
   (ls key = None \<longrightarrow> getStorageWithExpiry t' key ls = (None, ls))"
  by (simp add: getStorageWithExpiry_def setStorageWithExpiry_def)

theorem storage_expiry_spec_witness:
  "fst (getStorageWithExpiry 1601 ''theme''
          (setStorageWithExpiry 1000 ''theme'' ''dark'' 600 Map.empty)) = None \<and>
   snd (getStorageWithExpiry 1601 ''theme''
          (setStorageWithExpiry 1000 ''theme'' ''dark'' 600 Map.empty)) ''theme'' = None \<and>
   getStorageWithExpiry 1600 ''theme''
      (setStorageWithExpiry 1000 ''theme'' ''dark'' 600 Map.empty) =
     (Some ''dark'', setStorageWithExpiry 1000 ''theme'' ''dark'' 600 Map.empty) \<and>
   getStorageWithExpiry 5 ''theme'' (Map.empty :: string localStorage) = (None, Map.empty)"
  using storage_expiry_spec [of 1000 600 1601 "''theme''" "''dark''" Map.empty]
    storage_expiry_spec [of 1000 600 1600 "''theme''" "''dark''" Map.empty]
    storage_expiry_spec [of 0 0 5 "''theme''" "''dark''" Map.empty]
  by simp

subsection \<open>extractMentions\<close>

lemma at_not_word: "\<not> is_word_char CHR ''@''"
  by (simp add: is_word_char_def)

lemma new_Set_snoc: "new_Set (xs @ [x]) = Set_add (new_Set xs) x"
  by (simp add: new_Set_def)

lemma set_new_Set: "set (new_Set xs) = set xs"
  by (induction xs rule: rev_induct) (auto simp: new_Set_snoc Set_add_def new_Set_def)

lemma distinct_new_Set: "distinct (new_Set xs)"
  by (induction xs rule: rev_induct) (auto simp: new_Set_snoc Set_add_def new_Set_def)

text \<open>
  The set lists the elements of the array at the positions that no equal element precedes,
  in the order of the array.
\<close>

lemma new_Set_first_occurrences:
  "new_Set xs = map (\<lambda>i. xs ! i) (filter (\<lambda>i. xs ! i \<notin> set (take i xs)) [0..<length xs])"
proof (induction xs rule: rev_induct)
  case Nil
  show ?case by (simp add: new_Set_def)
next
  case (snoc x xs)
  have keep: "filter (\<lambda>i. (xs @ [x]) ! i \<notin> set (take i (xs @ [x]))) [0..<length xs]
            = filter (\<lambda>i. xs ! i \<notin> set (take i xs)) [0..<length xs]"
    by (rule filter_cong) (auto simp: nth_append)
  have nth: "map (\<lambda>i. (xs @ [x]) ! i) (filter (\<lambda>i. xs ! i \<notin> set (take i xs)) [0..<length xs])
           = map (\<lambda>i. xs ! i) (filter (\<lambda>i. xs ! i \<notin> set (take i xs)) [0..<length xs])"
    by (rule map_cong) (auto simp: nth_append)
  have upt: "[0..<length (xs @ [x])] = [0..<length xs] @ [length xs]" by simp
  have last: "filter (\<lambda>i. (xs @ [x]) ! i \<notin> set (take i (xs @ [x]))) [length xs]
            = (if x \<in> set xs then [] else [length xs])"
    by simp
  show ?case
    unfolding upt filter_append map_append keep nth last new_Set_snoc Set_add_def set_new_Set
    using snoc.IH by simp
qed

lemma takeWhile_run:
  "\<forall>c\<in>set w. P c \<Longrightarrow> post = [] \<or> \<not> P (hd post) \<Longrightarrow> takeWhile P (w @ post) = w"
  by (cases post) (auto simp: takeWhile_append)

lemma takeWhile_stop: "\<not> P x \<Longrightarrow> takeWhile P (xs @ x # ys) = takeWhile P xs"
  by (induction xs) auto

lemma dropWhile_stop: "\<not> P x \<Longrightarrow> dropWhile P (xs @ x # ys) = dropWhile P xs @ x # ys"
  by (induction xs) auto

text \<open>Every match of the loop is a mention of the text: a maximal run of word characters
  right after an \<^verbatim>\<open>@\<close>.\<close>

lemma exec_loop_sound:
  "w \<in> set (exec_loop str) \<Longrightarrow>
     \<exists>pre post. str = pre @ CHR ''@'' # w @ post \<and> w \<noteq> [] \<and> (\<forall>c\<in>set w. is_word_char c) \<and>
       (post = [] \<or> \<not> is_word_char (hd post))"
proof (induction str rule: exec_loop.induct)
  case 1
  then show ?case by simp
next
  case (2 c cs)
  show ?case
  proof (cases "c = CHR ''@'' \<and> takeWhile is_word_char cs \<noteq> []")
    case True
    from "2.prems" True
    consider "w = takeWhile is_word_char cs" | "w \<in> set (exec_loop (dropWhile is_word_char cs))"
      by auto
    then show ?thesis
    proof cases
      case 1
      have "c # cs = [] @ CHR ''@'' # w @ dropWhile is_word_char cs"
        using True 1 by simp
      moreover have "dropWhile is_word_char cs = [] \<or> \<not> is_word_char (hd (dropWhile is_word_char cs))"
        using hd_dropWhile by blast
      moreover have "\<forall>c\<in>set w. is_word_char c"
        using 1 by (auto dest: set_takeWhileD)
      ultimately show ?thesis using True 1 by blast
    next
      case 2
      with "2.IH"(1) True obtain pre post where
        d: "dropWhile is_word_char cs = pre @ CHR ''@'' # w @ post" and
        r: "w \<noteq> []" "\<forall>c\<in>set w. is_word_char c" "post = [] \<or> \<not> is_word_char (hd post)"
        by blast
      have "c # cs = (c # takeWhile is_word_char cs @ pre) @ CHR ''@'' # w @ post"
        using d takeWhile_dropWhile_id[of is_word_char cs] by (metis append.assoc append_Cons)
      with r show ?thesis by blast
    qed
  next
    case False
    with "2.prems" have "w \<in> set (exec_loop cs)" by auto
    with "2.IH"(2) False obtain pre post where
      d: "cs = pre @ CHR ''@'' # w @ post" and
      r: "w \<noteq> []" "\<forall>c\<in>set w. is_word_char c" "post = [] \<or> \<not> is_word_char (hd post)"
      by blast
    have "c # cs = (c # pre) @ CHR ''@'' # w @ post" using d by simp
    with r show ?thesis by blast
  qed
qed

text \<open>Every mention of the text is a match of the loop: since \<^verbatim>\<open>@\<close> is no word character,
  no earlier match runs over it.\<close>

lemma exec_loop_complete:
  "str = pre @ CHR ''@'' # w @ post \<Longrightarrow> w \<noteq> [] \<Longrightarrow> \<forall>c\<in>set w. is_word_char c \<Longrightarrow>
   post = [] \<or> \<not> is_word_char (hd post) \<Longrightarrow> w \<in> set (exec_loop str)"
proof (induction str arbitrary: pre rule: exec_loop.induct)
  case 1
  then show ?case by simp
next
  case (2 c cs)
  show ?case
  proof (cases pre)
    case Nil
    with "2.prems" have c: "c = CHR ''@''" and cs: "cs = w @ post" by auto
    have "takeWhile is_word_char (w @ post) = w"
      using "2.prems"(3,4) by (rule takeWhile_run)
    then have "takeWhile is_word_char cs = w"
      using cs by simp
    with c "2.prems"(2) show ?thesis by simp
  next
    case (Cons p pre')
    with "2.prems"(1) have cs: "cs = pre' @ CHR ''@'' # w @ post" and cp: "c = p" by auto
    show ?thesis
    proof (cases "c = CHR ''@'' \<and> takeWhile is_word_char cs \<noteq> []")
      case False
      then have "exec_loop (c # cs) = exec_loop cs" by auto
      moreover have "w \<in> set (exec_loop cs)"
        using "2.IH"(2)[OF False cs "2.prems"(2,3,4)] .
      ultimately show ?thesis by simp
    next
      case True
      have tw: "takeWhile is_word_char cs = takeWhile is_word_char pre'"
        and dw: "dropWhile is_word_char cs = dropWhile is_word_char pre' @ CHR ''@'' # w @ post"
        using cs at_not_word by (simp_all add: takeWhile_stop dropWhile_stop)
      have "w \<in> set (exec_loop (dropWhile is_word_char cs))"
        using "2.IH"(1)[OF True dw "2.prems"(2,3,4)] .
      with True show ?thesis by simp
    qed
  qed
qed

lemma run_not_start:
  assumes w: "\<forall>j<m. j < length cs \<longrightarrow> is_word_char (cs ! j)" and d: "drop (Suc k) str = cs"
  shows "filter (mention_starts str) [Suc k..<Suc k + m] = []"
proof -
  have "\<not> mention_starts str p" if p: "p \<in> set [Suc k..<Suc k + m]" for p
  proof
    assume ms: "mention_starts str p"
    then have pl: "p < length str" and at: "str ! p = CHR ''@''"
      by (simp_all add: mention_starts_def)
    define j where "j = p - Suc k"
    from p have j: "p = Suc k + j" "j < m"
      by (auto simp: j_def)
    have jl: "j < length cs" using d pl j by auto
    have "cs ! j = str ! p"
      using d j pl by (auto simp: nth_drop)
    with w j jl at at_not_word show False by auto
  qed
  then show ?thesis by (simp add: filter_empty_conv)
qed

lemma upt_split: "a \<le> b \<Longrightarrow> b \<le> c \<Longrightarrow> [a..<c] = [a..<b] @ [b..<c]"
  using upt_add_eq_append [of a b "c - b"] by simp

lemma takeWhile_word_nth:
  "j < length (takeWhile P cs) \<Longrightarrow> P (cs ! j)"
  by (metis nth_mem set_takeWhileD takeWhile_nth)

lemma exec_loop_by_position:
  "k \<le> length str \<Longrightarrow> xs = drop k str \<Longrightarrow>
     exec_loop xs = map (mention_at str) (filter (mention_starts str) [k..<length str])"
proof (induction xs arbitrary: k rule: exec_loop.induct)
  case 1
  then show ?case by simp
next
  case (2 c cs)
  from "2.prems" have k: "k < length str"
    by (cases "k < length str") auto
  from "2.prems"(2) k have "c # cs = str ! k # drop (Suc k) str"
    by (simp add: Cons_nth_drop_Suc)
  then have c: "str ! k = c" and cs: "drop (Suc k) str = cs"
    by simp_all
  have upt: "[k..<length str] = k # [Suc k..<length str]"
    using k by (simp add: upt_conv_Cons)
  have st: "mention_starts str k = (c = CHR ''@'' \<and> takeWhile is_word_char cs \<noteq> [])"
    using k c cs by (simp add: mention_starts_def mention_at_def)
  have at: "mention_at str k = takeWhile is_word_char cs"
    using cs by (simp add: mention_at_def)
  show ?case
  proof (cases "c = CHR ''@'' \<and> takeWhile is_word_char cs \<noteq> []")
    case True
    let ?m = "length (takeWhile is_word_char cs)"
    have "dropWhile is_word_char cs = drop ?m cs"
      by (rule dropWhile_eq_drop)
    also have "\<dots> = drop (Suc k + ?m) str"
      unfolding cs [symmetric] drop_drop by (simp add: add.commute)
    finally have dw: "dropWhile is_word_char cs = drop (Suc k + ?m) str" .
    have "?m \<le> length cs" by (rule length_takeWhile_le)
    then have le: "Suc k + ?m \<le> length str"
      using cs k by auto
    have ih: "exec_loop (dropWhile is_word_char cs) =
        map (mention_at str) (filter (mention_starts str) [Suc k + ?m..<length str])"
      using "2.IH"(1) [OF True le dw] .
    have none: "filter (mention_starts str) [Suc k..<Suc k + ?m] = []"
      by (rule run_not_start [OF _ cs]) (simp add: takeWhile_word_nth)
    have split: "[Suc k..<length str] = [Suc k..<Suc k + ?m] @ [Suc k + ?m..<length str]"
      by (rule upt_split [OF le_add1 le])
    have "filter (mention_starts str) [k..<length str] =
        k # filter (mention_starts str) [Suc k + ?m..<length str]"
      unfolding upt split using True st none by simp
    with True ih at show ?thesis by simp
  next
    case False
    have le: "Suc k \<le> length str" using k by simp
    have "exec_loop cs = map (mention_at str) (filter (mention_starts str) [Suc k..<length str])"
      using "2.IH"(2) [OF False le cs [symmetric]] .
    moreover have "filter (mention_starts str) [k..<length str] =
        filter (mention_starts str) [Suc k..<length str]"
      unfolding upt using False st by simp
    moreover have "exec_loop (c # cs) = exec_loop cs"
      using False by auto
    ultimately show ?thesis by simp
  qed
qed

lemma exec_loop_mentions_by_position: "exec_loop str = mentions_by_position str"
  using exec_loop_by_position [of 0 str str] by (simp add: mentions_by_position_def)

text \<open>
  Claim C9. For every input string, \<open>extractMentions\<close> returns a list without duplicates;
  its elements are exactly the mentions of the text, a mention being a non-empty maximal run
  of word characters right after an \<^verbatim>\<open>@\<close>; and they stand in the order of their first
  occurrence in the text: the result is the list of the mentions at the positions of the text,
  from the first position to the last, with every mention kept where it occurs first.
\<close>

theorem extractMentions_spec:
  "distinct (extractMentions str) \<and>
   (\<forall>w. w \<in> set (extractMentions str) \<longleftrightarrow>
      (\<exists>pre post. str = pre @ CHR ''@'' # w @ post \<and> w \<noteq> [] \<and> (\<forall>c\<in>set w. is_word_char c) \<and>
         (post = [] \<or> \<not> is_word_char (hd post)))) \<and>
   extractMentions str = first_occurrences (mentions_by_position str)"
proof (intro conjI allI)
  show "distinct (extractMentions str)"
    by (simp add: extractMentions_def distinct_new_Set)
next
  fix w
  show "w \<in> set (extractMentions str) \<longleftrightarrow>
      (\<exists>pre post. str = pre @ CHR ''@'' # w @ post \<and> w \<noteq> [] \<and> (\<forall>c\<in>set w. is_word_char c) \<and>
         (post = [] \<or> \<not> is_word_char (hd post)))"
    unfolding extractMentions_def set_new_Set
    using exec_loop_sound [of w str] exec_loop_complete [of str _ w] by blast
next
  show "extractMentions str = first_occurrences (mentions_by_position str)"
    unfolding extractMentions_def first_occurrences_def exec_loop_mentions_by_position
    by (rule new_Set_first_occurrences)
qed

theorem extractMentions_spec_witness:
  "mentions_by_position ''@bob @al @bob'' = [''bob'', ''al'', ''bob''] \<and>
   first_occurrences [''bob'', ''al'', ''bob''] = [''bob'', ''al''] \<and>
   extractMentions ''@bob @al @bob'' = [''bob'', ''al''] \<and>
   distinct (extractMentions ''@bob @al @bob'') \<and>
   ''al'' \<in> set (extractMentions ''@bob @al @bob'')"
proof -
  have a: "mentions_by_position ''@bob @al @bob'' = [''bob'', ''al'', ''bob'']"
    by (simp add: mentions_by_position_def mention_starts_def mention_at_def is_word_char_def
        upt_rec)
  have b: "first_occurrences [''bob'', ''al'', ''bob''] = [''bob'', ''al'']"
    by (simp add: first_occurrences_def upt_rec)
  from extractMentions_spec [of "''@bob @al @bob''"]
  have c: "extractMentions ''@bob @al @bob'' = [''bob'', ''al'']"
    and d: "distinct (extractMentions ''@bob @al @bob'')"
    unfolding a b by simp_all
  have e: "''al'' \<in> set (extractMentions ''@bob @al @bob'')"
    unfolding c by simp
  from a b c d e show ?thesis by blast
qed

section \<open>Properties of the channel clients\<close>

subsection \<open>The ownership of the timers\<close>

lemmas ws_defs =
  onopen_def onclose_def onmessage_def onerror_def connect_def setupEventHandlers_def
  handleReconnect_def onMaxReconnectAttemptsReached_def startHeartbeat_def stopHeartbeat_def
  sendMessage_def heartbeat_callback_def disconnect_def browser_send_def browser_close_def
  onConnect_def onDisconnect_def onError_def handleMessage_def handleUserStatus_def
  handleNotification_def handleChatMessage_def handleTypingIndicator_def handleUserPresence_def
  invoke_def JSON_parse_def constructor_def fresh_def constructor_on_def fresh_on_def
  maxReconnectAttempts_def reconnectInterval_def

lemma timers_owned_init: "timers_owned (constructor_on p n ctor_ok am)"
  by (simp add: timers_owned_def ws_defs)

lemma timers_owned_open:
  assumes "timers_owned s" and "deliver EvOpen s = Some s'"
  shows "timers_owned s'"
proof -
  from assms(2) have c: "socket s = Some CONNECTING" and s': "s' = onopen (s\<lparr>socket := Some OPEN\<rparr>)"
    by (auto split: if_splits)
  from assms(1) c have "heartbeatTimer s = None" "intervals s = []" "timeouts s = []"
    "0 < next_handle s"
    by (auto simp: timers_owned_def)
  then show ?thesis
    unfolding s' by (simp add: timers_owned_def onopen_def startHeartbeat_def onConnect_def)
qed

lemma invoke_timers:
  "socket (invoke h b s) = socket s \<and>
   heartbeatTimer (invoke h b s) = heartbeatTimer s \<and>
   intervals (invoke h b s) = intervals s \<and>
   next_handle (invoke h b s) = next_handle s \<and>
   timeouts (invoke h b s) = timeouts s \<and>
   scheduled (invoke h b s) = scheduled s \<and>
   reconnectAttempts (invoke h b s) = reconnectAttempts s \<and>
   wire (invoke h b s) = wire s \<and>
   accountsManager (invoke h b s) = accountsManager s"
  by (simp add: invoke_def)

lemma handleNotification_timers:
  "socket (snd (handleNotification b s)) = socket s \<and>
   heartbeatTimer (snd (handleNotification b s)) = heartbeatTimer s \<and>
   intervals (snd (handleNotification b s)) = intervals s \<and>
   next_handle (snd (handleNotification b s)) = next_handle s \<and>
   timeouts (snd (handleNotification b s)) = timeouts s \<and>
   scheduled (snd (handleNotification b s)) = scheduled s \<and>
   reconnectAttempts (snd (handleNotification b s)) = reconnectAttempts s \<and>
   wire (snd (handleNotification b s)) = wire s \<and>
   accountsManager (snd (handleNotification b s)) = accountsManager s"
  by (cases "notificationApi s") (simp_all add: handleNotification_def invoke_def Let_def)

lemma handleMessage_timers:
  "socket (snd (handleMessage d s)) = socket s \<and>
   heartbeatTimer (snd (handleMessage d s)) = heartbeatTimer s \<and>
   intervals (snd (handleMessage d s)) = intervals s \<and>
   next_handle (snd (handleMessage d s)) = next_handle s \<and>
   timeouts (snd (handleMessage d s)) = timeouts s \<and>
   scheduled (snd (handleMessage d s)) = scheduled s \<and>
   reconnectAttempts (snd (handleMessage d s)) = reconnectAttempts s \<and>
   wire (snd (handleMessage d s)) = wire s \<and>
   accountsManager (snd (handleMessage d s)) = accountsManager s"
proof (cases d)
  case JNull
  then show ?thesis by (simp add: handleMessage_def)
next
  case (JData ty b)
  then show ?thesis
    using handleNotification_timers [of b s] invoke_timers [of _ b s]
    by (simp add: handleMessage_def handleUserStatus_def handleChatMessage_def
        handleTypingIndicator_def handleUserPresence_def)
qed

lemma onmessage_timers:
  "socket (onmessage t s) = socket s \<and>
   heartbeatTimer (onmessage t s) = heartbeatTimer s \<and>
   intervals (onmessage t s) = intervals s \<and>
   next_handle (onmessage t s) = next_handle s \<and>
   timeouts (onmessage t s) = timeouts s \<and>
   scheduled (onmessage t s) = scheduled s \<and>
   reconnectAttempts (onmessage t s) = reconnectAttempts s \<and>
   wire (onmessage t s) = wire s \<and>
   accountsManager (onmessage t s) = accountsManager s"
proof (cases t)
  case (Malformed x)
  then show ?thesis by (simp add: onmessage_def JSON_parse_def)
next
  case (WellFormed d)
  obtain e s1 where h: "handleMessage d s = (e, s1)" by (cases "handleMessage d s")
  have f: "socket s1 = socket s \<and> heartbeatTimer s1 = heartbeatTimer s \<and>
    intervals s1 = intervals s \<and> next_handle s1 = next_handle s \<and>
    timeouts s1 = timeouts s \<and> scheduled s1 = scheduled s \<and>
    reconnectAttempts s1 = reconnectAttempts s \<and> wire s1 = wire s \<and>
    accountsManager s1 = accountsManager s"
    using handleMessage_timers [of d s] unfolding h snd_conv .
  have "onmessage t s = (case e of None \<Rightarrow> s1 | Some x \<Rightarrow> s1\<lparr>console := console s1 @ [Error_parsing]\<rparr>)"
    using WellFormed h by (simp add: onmessage_def JSON_parse_def split: option.splits)
  with f show ?thesis by (cases e) simp_all
qed

lemma timers_owned_message:
  assumes "timers_owned s" and "deliver (EvMessage t) s = Some s'"
  shows "timers_owned s'"
proof -
  from assms(2) have s': "s' = onmessage t s" by (auto split: if_splits)
  show ?thesis
    using assms(1) onmessage_timers [of t s] unfolding s' timers_owned_def by simp
qed

lemma timers_owned_closing:
  assumes "timers_owned s" and "deliver EvClosing s = Some s'"
  shows "timers_owned s'"
proof -
  from assms(2) have o: "socket s = Some OPEN" and s': "s' = s\<lparr>socket := Some CLOSING\<rparr>"
    by (auto split: if_splits)
  from assms(1) o have "timeouts s = []" by (auto simp: timers_owned_def)
  with assms(1) show ?thesis unfolding s' by (simp add: timers_owned_def)
qed

lemma sendMessage_timers:
  "socket (snd (sendMessage ty d s)) = socket s \<and>
   heartbeatTimer (snd (sendMessage ty d s)) = heartbeatTimer s \<and>
   intervals (snd (sendMessage ty d s)) = intervals s \<and>
   next_handle (snd (sendMessage ty d s)) = next_handle s \<and>
   timeouts (snd (sendMessage ty d s)) = timeouts s \<and>
   scheduled (snd (sendMessage ty d s)) = scheduled s \<and>
   reconnectAttempts (snd (sendMessage ty d s)) = reconnectAttempts s \<and>
   toasts (snd (sendMessage ty d s)) = toasts s \<and>
   accountsManager (snd (sendMessage ty d s)) = accountsManager s"
  by (simp add: sendMessage_def browser_send_def)

lemma timers_owned_send:
  assumes "timers_owned s" and "deliver (CallSend ty d) s = Some s'"
  shows "timers_owned s'"
proof -
  from assms(2) have s': "s' = snd (sendMessage ty d s)" by simp
  show ?thesis
    using assms(1) sendMessage_timers [of ty d s] unfolding s' timers_owned_def by simp
qed

lemma timers_owned_heartbeat:
  assumes "timers_owned s" and "deliver (EvHeartbeat h now) s = Some s'"
  shows "timers_owned s'"
proof -
  from assms(2) have s': "s' = snd (sendMessage ''heartbeat'' (HeartbeatData now) s)"
    by (auto simp: heartbeat_callback_def split: if_splits)
  show ?thesis
    using assms(1) sendMessage_timers [of "''heartbeat''" "HeartbeatData now" s]
    unfolding s' timers_owned_def by simp
qed

lemma timers_owned_error:
  assumes "timers_owned s" and "deliver EvError s = Some s'"
  shows "timers_owned s'"
proof -
  from assms(2) have s': "s' = onerror s" by (auto split: if_splits)
  show ?thesis
    using assms(1) unfolding s' timers_owned_def by (simp add: onerror_def onError_def)
qed

lemma stopHeartbeat_owned:
  assumes "timers_owned s"
  shows "heartbeatTimer (stopHeartbeat s) = None" and "intervals (stopHeartbeat s) = []"
    and "socket (stopHeartbeat s) = socket s" and "timeouts (stopHeartbeat s) = timeouts s"
    and "next_handle (stopHeartbeat s) = next_handle s"
    and "scheduled (stopHeartbeat s) = scheduled s"
    and "reconnectAttempts (stopHeartbeat s) = reconnectAttempts s"
    and "toasts (stopHeartbeat s) = toasts s"
    and "console (stopHeartbeat s) = console s"
    and "accountsManager (stopHeartbeat s) = accountsManager s"
  using assms by (cases "heartbeatTimer s"; simp add: stopHeartbeat_def timers_owned_def)+

lemma handleReconnect_timers:
  "socket (handleReconnect s) = socket s" "heartbeatTimer (handleReconnect s) = heartbeatTimer s"
  "intervals (handleReconnect s) = intervals s" "next_handle (handleReconnect s) = next_handle s"
  "length (timeouts (handleReconnect s)) \<le> Suc (length (timeouts s))"
  by (simp_all add: handleReconnect_def onMaxReconnectAttemptsReached_def Let_def)

lemma timers_owned_close:
  assumes "timers_owned s" and "deliver (EvClose wc) s = Some s'"
  shows "timers_owned s'"
proof -
  let ?s0 = "s\<lparr>socket := Some CLOSED, console := console s @ [Log_disconnected]\<rparr>"
  let ?s1 = "stopHeartbeat ?s0"
  from assms(2) have live: "socket s \<noteq> None" "socket s \<noteq> Some CLOSED"
    and s': "s' = (if \<not> wc then handleReconnect ?s1 else ?s1)"
    by (auto simp: onclose_def onDisconnect_def Let_def split: if_splits)
  from assms(1) live have t: "timeouts s = []"
    by (auto simp: timers_owned_def)
  have hb: "heartbeatTimer ?s1 = None" "intervals ?s1 = []" "socket ?s1 = Some CLOSED"
    "timeouts ?s1 = []" "next_handle ?s1 = next_handle s"
    using assms(1) t
    by (cases "heartbeatTimer s"; simp add: stopHeartbeat_def timers_owned_def)+
  show ?thesis
  proof (cases wc)
    case True
    with s' hb assms(1) show ?thesis by (simp add: timers_owned_def)
  next
    case False
    with s' have "s' = handleReconnect ?s1" by simp
    with hb assms(1) handleReconnect_timers [of ?s1] show ?thesis
      by (simp add: timers_owned_def)
  qed
qed

lemma timers_owned_timeout:
  assumes "timers_owned s" and "deliver (EvTimeout i ok) s = Some s'"
  shows "timers_owned s'"
proof -
  let ?s0 = "s\<lparr>timeouts := take i (timeouts s) @ drop (Suc i) (timeouts s)\<rparr>"
  from assms(2) have i: "i < length (timeouts s)" and s': "s' = connect ok ?s0"
    by (auto split: if_splits)
  from assms(1) i have one: "length (timeouts s) = 1" and i0: "i = 0"
    and closed: "socket s = None \<or> socket s = Some CLOSED"
    by (auto simp: timers_owned_def)
  from one i0 have t0: "take i (timeouts s) @ drop (Suc i) (timeouts s) = []"
    by (cases "timeouts s") simp_all
  from assms(1) closed have hb: "heartbeatTimer s = None" "intervals s = []" "0 < next_handle s"
    by (auto simp: timers_owned_def)
  show ?thesis
  proof (cases ok)
    case True
    with s' t0 hb show ?thesis
      by (simp add: connect_def setupEventHandlers_def timers_owned_def)
  next
    case False
    let ?s1 = "?s0\<lparr>console := console ?s0 @ [Error_connection]\<rparr>"
    from False s' have "s' = handleReconnect ?s1" by (simp add: connect_def)
    moreover have "timeouts ?s1 = []" "socket ?s1 = socket s" "heartbeatTimer ?s1 = None"
      "intervals ?s1 = []" "next_handle ?s1 = next_handle s"
      using t0 hb by simp_all
    ultimately show ?thesis
      using hb closed handleReconnect_timers [of ?s1]
      by (auto simp: timers_owned_def)
  qed
qed

lemma timers_owned_disconnect:
  assumes "timers_owned s" and "deliver CallDisconnect s = Some s'"
  shows "timers_owned s'"
proof -
  let ?s1 = "stopHeartbeat s"
  from assms(2) have s': "s' = (case socket ?s1 of None \<Rightarrow> ?s1
      | Some rs \<Rightarrow> ?s1\<lparr>socket := Some (browser_close rs)\<rparr>)"
    by (simp add: disconnect_def Let_def)
  note sh = stopHeartbeat_owned [OF assms(1)]
  show ?thesis
  proof (cases "socket s")
    case None
    with s' sh assms(1) show ?thesis by (simp add: timers_owned_def)
  next
    case (Some rs)
    with s' sh have "s' = ?s1\<lparr>socket := Some (browser_close rs)\<rparr>" by simp
    with sh Some assms(1) show ?thesis
      by (cases rs) (auto simp: timers_owned_def browser_close_def)
  qed
qed

lemma timers_owned_step:
  assumes "timers_owned s" and "deliver e s = Some s'"
  shows "timers_owned s'"
proof (cases e)
  case EvOpen
  with assms show ?thesis using timers_owned_open by blast
next
  case (EvMessage t)
  with assms show ?thesis using timers_owned_message by blast
next
  case EvClosing
  with assms show ?thesis using timers_owned_closing by blast
next
  case (EvClose wc)
  with assms show ?thesis using timers_owned_close by blast
next
  case EvError
  with assms show ?thesis using timers_owned_error by blast
next
  case (EvTimeout i ok)
  with assms show ?thesis using timers_owned_timeout by blast
next
  case (EvHeartbeat h now)
  with assms show ?thesis using timers_owned_heartbeat by blast
next
  case (CallSend ty d)
  with assms show ?thesis using timers_owned_send by blast
next
  case CallDisconnect
  with assms show ?thesis using timers_owned_disconnect by blast
qed

lemma reachable_timers_owned: "reachable s \<Longrightarrow> timers_owned s"
  by (induction rule: reachable.induct) (auto intro: timers_owned_init timers_owned_step)

lemma run_reachable: "reachable s \<Longrightarrow> run es s = Some s' \<Longrightarrow> reachable s'"
  by (induction es arbitrary: s) (auto split: option.splits intro: reachable_step)

lemma reachable_constructor: "reachable (constructor ctor_ok am)"
  unfolding constructor_def fresh_def
  using reachable_init [of "\<lambda>h body. None" "HasNotification False True" ctor_ok am]
  by (simp add: constructor_on_def)


subsection \<open>The reconnection policy\<close>

lemma handleReconnect_below_max:
  assumes "reconnectAttempts s < 5"
  shows "reconnectAttempts (handleReconnect s) = Suc (reconnectAttempts s)"
    and "scheduled (handleReconnect s) = scheduled s @ [Suc (reconnectAttempts s) * 5000]"
    and "timeouts (handleReconnect s) = timeouts s @ [Suc (reconnectAttempts s) * 5000]"
  using assms
  by (simp_all add: handleReconnect_def maxReconnectAttempts_def reconnectInterval_def Let_def)

lemma handleReconnect_at_max:
  assumes "5 \<le> reconnectAttempts s"
  shows "reconnectAttempts (handleReconnect s) = reconnectAttempts s"
    and "scheduled (handleReconnect s) = scheduled s"
    and "timeouts (handleReconnect s) = timeouts s"
    and "toasts (handleReconnect s) = (if accountsManager s then toasts s @ [connection_lost] else toasts s)"
    and "console (handleReconnect s) = console s @ [Error_max_reached]"
  using assms
  by (simp_all add: handleReconnect_def maxReconnectAttempts_def onMaxReconnectAttemptsReached_def)

lemma stopHeartbeat_fields:
  "socket (stopHeartbeat s) = socket s" "timeouts (stopHeartbeat s) = timeouts s"
  "scheduled (stopHeartbeat s) = scheduled s"
  "reconnectAttempts (stopHeartbeat s) = reconnectAttempts s"
  "toasts (stopHeartbeat s) = toasts s" "console (stopHeartbeat s) = console s"
  "accountsManager (stopHeartbeat s) = accountsManager s" "wire (stopHeartbeat s) = wire s"
  "ui (stopHeartbeat s) = ui s"
  by (cases "heartbeatTimer s"; simp add: stopHeartbeat_def)+

lemma onclose_clean:
  "onclose True s = stopHeartbeat (s\<lparr>console := console s @ [Log_disconnected]\<rparr>)"
  by (simp add: onclose_def onDisconnect_def Let_def)

lemma onclose_unclean:
  "onclose False s = handleReconnect (stopHeartbeat (s\<lparr>console := console s @ [Log_disconnected]\<rparr>))"
  by (simp add: onclose_def onDisconnect_def Let_def)

lemma unclean_close_below_max:
  assumes "deliver (EvClose False) s = Some s'" and "reconnectAttempts s < 5"
  shows "reconnectAttempts s' = Suc (reconnectAttempts s)"
    and "scheduled s' = scheduled s @ [Suc (reconnectAttempts s) * 5000]"
proof -
  let ?s1 = "stopHeartbeat (s\<lparr>socket := Some CLOSED, console := console s @ [Log_disconnected]\<rparr>)"
  from assms(1) have s': "s' = handleReconnect ?s1"
    by (auto simp: onclose_unclean split: if_splits)
  have a: "reconnectAttempts ?s1 = reconnectAttempts s" and b: "scheduled ?s1 = scheduled s"
    by (simp_all add: stopHeartbeat_fields)
  from assms(2) a have lt: "reconnectAttempts ?s1 < 5" by simp
  show "reconnectAttempts s' = Suc (reconnectAttempts s)"
    unfolding s' using handleReconnect_below_max(1) [OF lt] a by simp
  show "scheduled s' = scheduled s @ [Suc (reconnectAttempts s) * 5000]"
    unfolding s' using handleReconnect_below_max(2) [OF lt] a b by simp
qed

lemma quiet_event_keeps_counter:
  assumes "deliver e s = Some s'" and "e \<noteq> EvOpen" and "e \<noteq> EvClose False"
    and "\<forall>i. e \<noteq> EvTimeout i False"
  shows "reconnectAttempts s' = reconnectAttempts s \<and> scheduled s' = scheduled s"
proof (cases e)
  case EvOpen
  with assms show ?thesis by simp
next
  case (EvMessage t)
  with assms(1) have "s' = onmessage t s" by (auto split: if_splits)
  with onmessage_timers [of t s] show ?thesis by simp
next
  case EvClosing
  with assms(1) show ?thesis by (auto split: if_splits)
next
  case (EvClose wc)
  with assms(3) have "wc" by simp
  with EvClose assms(1) show ?thesis
    by (auto simp: onclose_clean stopHeartbeat_fields split: if_splits)
next
  case EvError
  with assms(1) show ?thesis by (auto simp: onerror_def onError_def split: if_splits)
next
  case (EvTimeout i ok)
  with assms(4) have "ok" by auto
  with EvTimeout assms(1) show ?thesis
    by (auto simp: connect_def setupEventHandlers_def split: if_splits)
next
  case (EvHeartbeat h now)
  with assms(1) have "s' = snd (sendMessage ''heartbeat'' (HeartbeatData now) s)"
    by (auto simp: heartbeat_callback_def split: if_splits)
  with sendMessage_timers [of "''heartbeat''" "HeartbeatData now" s] show ?thesis by simp
next
  case (CallSend ty d)
  with assms(1) have "s' = snd (sendMessage ty d s)" by simp
  with sendMessage_timers [of ty d s] show ?thesis by simp
next
  case CallDisconnect
  with assms(1) have s': "s' = disconnect s" by simp
  show ?thesis unfolding s'
    by (cases "socket s") (simp_all add: disconnect_def Let_def stopHeartbeat_fields)
qed

lemma backoff_from:
  assumes "run es s = Some s'" and "EvOpen \<notin> set es" and "\<forall>i. EvTimeout i False \<notin> set es"
    and "reconnectAttempts s + count_list es (EvClose False) \<le> 5"
  shows "reconnectAttempts s' = reconnectAttempts s + count_list es (EvClose False) \<and>
         scheduled s' = scheduled s @
           map (\<lambda>k. k * 5000)
             [Suc (reconnectAttempts s)..<Suc (reconnectAttempts s + count_list es (EvClose False))]"
  using assms
proof (induction es arbitrary: s)
  case Nil
  then show ?case by simp
next
  case (Cons e es)
  from Cons.prems(1) obtain s1 where d: "deliver e s = Some s1" and r: "run es s1 = Some s'"
    by (auto split: option.splits)
  from Cons.prems(2,3) have q: "EvOpen \<notin> set es" "\<forall>i. EvTimeout i False \<notin> set es"
    and e: "e \<noteq> EvOpen" "\<forall>i. e \<noteq> EvTimeout i False"
    by auto
  show ?case
  proof (cases "e = EvClose False")
    case True
    with Cons.prems(4) have lt: "reconnectAttempts s < 5" by simp
    from unclean_close_below_max [OF d [unfolded True] lt]
    have a: "reconnectAttempts s1 = Suc (reconnectAttempts s)"
      and b: "scheduled s1 = scheduled s @ [Suc (reconnectAttempts s) * 5000]" .
    from Cons.prems(4) True a
    have le: "reconnectAttempts s1 + count_list es (EvClose False) \<le> 5" by simp
    from Cons.IH [OF r q le] a b True show ?thesis
      by (simp add: upt_conv_Cons)
  next
    case False
    from quiet_event_keeps_counter [OF d e(1) False e(2)]
    have a: "reconnectAttempts s1 = reconnectAttempts s" and b: "scheduled s1 = scheduled s"
      by simp_all
    from Cons.prems(4) False a
    have le: "reconnectAttempts s1 + count_list es (EvClose False) \<le> 5" by simp
    from Cons.IH [OF r q le] a b False show ?thesis by simp
  qed
qed

text \<open>
  Claim C1. Take a run of the user-scoped client that starts with the reconnect counter at 0,
  has no open event and no failing construction of a socket, and has \<open>N < 5\<close> unclean closes.
  Then the client schedules exactly \<open>N\<close> reconnect attempts in the run, the \<open>k\<close>-th with a
  delay of \<open>k\<close> times 5000 ms (5000, 10000, 15000, ...), so the delays are strictly
  increasing.
\<close>

theorem reconnect_backoff:
  assumes "reconnectAttempts s = 0" and "run es s = Some s'"
    and "EvOpen \<notin> set es" and "\<forall>i. EvTimeout i False \<notin> set es"
    and "count_list es (EvClose False) = N" and "N < 5"
  shows "scheduled s' = scheduled s @ map (\<lambda>k. k * 5000) [1..<Suc N] \<and>
         length (map (\<lambda>k. k * 5000) [1..<Suc N]) = N \<and>
         sorted_wrt (<) (map (\<lambda>k. k * 5000) [1..<Suc N]) \<and>
         reconnectAttempts s' = N"
proof -
  have le: "reconnectAttempts s + count_list es (EvClose False) \<le> 5"
    using assms(1,5,6) by simp
  from backoff_from [OF assms(2,3,4) le] assms(1,5)
  have "scheduled s' = scheduled s @ map (\<lambda>k. k * 5000) [1..<Suc N]" and "reconnectAttempts s' = N"
    by simp_all
  moreover have "sorted_wrt (\<lambda>x y. x * 5000 < y * (5000::nat)) [1..<Suc N]"
    by (rule sorted_wrt_mono_rel [OF _ sorted_wrt_upt]) simp
  then have "sorted_wrt (<) (map (\<lambda>k. k * 5000) [1..<Suc N])"
    unfolding sorted_wrt_map .
  ultimately show ?thesis by simp
qed

theorem reconnect_backoff_witness:
  "reconnectAttempts (constructor True True) = 0 \<and>
   map_option scheduled
     (run [EvClose False, EvTimeout 0 True, EvClose False, EvTimeout 0 True, EvClose False]
        (constructor True True)) = Some [5000, 10000, 15000] \<and>
   count_list [EvClose False, EvTimeout 0 True, EvClose False, EvTimeout 0 True, EvClose False]
     (EvClose False) = 3"
proof -
  let ?es = "[EvClose False, EvTimeout 0 True, EvClose False, EvTimeout 0 True, EvClose False]"
  obtain s' where r: "run ?es (constructor True True) = Some s'"
    by (simp add: ws_defs Let_def)
  have a: "reconnectAttempts (constructor True True) = 0" by (simp add: ws_defs)
  have c: "count_list ?es (EvClose False) = 3" by simp
  have s0: "scheduled (constructor True True) = []" by (simp add: ws_defs)
  from reconnect_backoff [OF a r _ _ c] have "scheduled s' = [5000, 10000, 15000]"
    by (simp add: s0 upt_conv_Cons)
  with r a c show ?thesis by simp
qed

subsection \<open>The exhausted reconnect budget\<close>

lemma at_rest_step:
  assumes "at_rest s" and "deliver e s = Some s'"
  shows "at_rest s' \<and> scheduled s' = scheduled s \<and> toasts s' = toasts s"
proof (cases e)
  case EvOpen
  with assms show ?thesis by (auto simp: at_rest_def split: if_splits)
next
  case (EvMessage t)
  with assms show ?thesis by (auto simp: at_rest_def split: if_splits)
next
  case EvClosing
  with assms show ?thesis by (auto simp: at_rest_def split: if_splits)
next
  case (EvClose wc)
  with assms show ?thesis by (auto simp: at_rest_def split: if_splits)
next
  case EvError
  with assms show ?thesis by (auto simp: at_rest_def split: if_splits)
next
  case (EvTimeout i ok)
  with assms show ?thesis by (auto simp: at_rest_def split: if_splits)
next
  case (EvHeartbeat h now)
  with assms show ?thesis by (auto simp: at_rest_def split: if_splits)
next
  case (CallSend ty d)
  with assms(2) have "s' = snd (sendMessage ty d s)" by simp
  with sendMessage_timers [of ty d s] assms(1) show ?thesis by (simp add: at_rest_def)
next
  case CallDisconnect
  with assms(2) have s': "s' = disconnect s" by simp
  from assms(1) have i: "intervals s = []" by (simp add: at_rest_def)
  have si: "intervals (stopHeartbeat s) = []"
    using i by (cases "heartbeatTimer s") (simp_all add: stopHeartbeat_def)
  from assms(1) consider "socket s = None" | "socket s = Some CLOSED" by (auto simp: at_rest_def)
  then show ?thesis
  proof cases
    case 1
    with assms(1) si show ?thesis unfolding s'
      by (simp add: disconnect_def Let_def stopHeartbeat_fields at_rest_def)
  next
    case 2
    with assms(1) si show ?thesis unfolding s'
      by (simp add: disconnect_def Let_def stopHeartbeat_fields at_rest_def browser_close_def)
  qed
qed

lemma at_rest_run:
  "at_rest s \<Longrightarrow> run es s = Some s' \<Longrightarrow>
     at_rest s' \<and> scheduled s' = scheduled s \<and> toasts s' = toasts s"
proof (induction es arbitrary: s)
  case Nil
  then show ?case by simp
next
  case (Cons e es)
  from Cons.prems(2) obtain s1 where d: "deliver e s = Some s1" and r: "run es s1 = Some s'"
    by (auto split: option.splits)
  from at_rest_step [OF Cons.prems(1) d] Cons.IH [OF _ r] show ?case by simp
qed

lemma exhausted_close:
  assumes "timers_owned s" and "5 \<le> reconnectAttempts s"
    and "deliver (EvClose False) s = Some s'"
  shows "at_rest s'" and "scheduled s' = scheduled s"
    and "toasts s' = (if accountsManager s then toasts s @ [connection_lost] else toasts s)"
    and "console s' = console s @ [Log_disconnected, Error_max_reached]"
    and "reconnectAttempts s' = reconnectAttempts s"
proof -
  let ?s1 = "stopHeartbeat (s\<lparr>socket := Some CLOSED, console := console s @ [Log_disconnected]\<rparr>)"
  from assms(3) have live: "socket s \<noteq> None" "socket s \<noteq> Some CLOSED"
    and s': "s' = handleReconnect ?s1"
    by (auto simp: onclose_unclean split: if_splits)
  from assms(1) live have t: "timeouts s = []" by (auto simp: timers_owned_def)
  have hb: "intervals ?s1 = []"
    using assms(1) by (cases "heartbeatTimer s"; simp add: stopHeartbeat_def timers_owned_def)
  have ge: "5 \<le> reconnectAttempts ?s1" using assms(2) by (simp add: stopHeartbeat_fields)
  note m = handleReconnect_at_max [OF ge]
  show "at_rest s'"
    unfolding s' at_rest_def using m(3) hb t
    by (simp add: handleReconnect_timers stopHeartbeat_fields)
  show "scheduled s' = scheduled s" unfolding s' using m(2) by (simp add: stopHeartbeat_fields)
  show "toasts s' = (if accountsManager s then toasts s @ [connection_lost] else toasts s)"
    unfolding s' using m(4) by (simp add: stopHeartbeat_fields)
  show "console s' = console s @ [Log_disconnected, Error_max_reached]"
    unfolding s' using m(5) by (simp add: stopHeartbeat_fields)
  show "reconnectAttempts s' = reconnectAttempts s"
    unfolding s' using m(1) by (simp add: stopHeartbeat_fields)
qed

lemma five_failures_state:
  "run five_failures (constructor True am) =
     Some \<lparr>socket = Some CONNECTING, reconnectAttempts = 5, heartbeatTimer = None, intervals = [],
       next_handle = 1, timeouts = [], scheduled = [5000, 10000, 15000, 20000, 25000], wire = [],
       console = [Log_disconnected, Log_attempting 1 5, Log_disconnected, Log_attempting 2 5,
         Log_disconnected, Log_attempting 3 5, Log_disconnected, Log_attempting 4 5,
         Log_disconnected, Log_attempting 5 5],
       ui = [], toasts = [], accountsManager = am, page = (\<lambda>h body. None),
       notificationApi = HasNotification False True\<rparr>"
  by (simp add: five_failures_def ws_defs Let_def)

text \<open>
  Claim C7, as amended. When an unclean close reaches a manager whose reconnect counter stands
  at the maximum of 5, the manager schedules no reconnect attempt and logs the error; it shows
  the toast "Connection Lost" when \<^verbatim>\<open>window.accountsManager\<close> is set, and no toast when it is
  not. After that no run of events schedules a reconnect attempt: nothing is pending, so only an
  explicit call of \<^verbatim>\<open>connect\<close> from outside would start again.
\<close>

theorem budget_exhausted:
  assumes "reachable s" and "reconnectAttempts s = 5"
    and "deliver (EvClose False) s = Some s'"
  shows "scheduled s' = scheduled s \<and> timeouts s' = [] \<and>
         console s' = console s @ [Log_disconnected, Error_max_reached] \<and>
         (accountsManager s \<longrightarrow> toasts s' = toasts s @ [connection_lost]) \<and>
         (\<not> accountsManager s \<longrightarrow> toasts s' = toasts s) \<and>
         (\<forall>es s''. run es s' = Some s'' \<longrightarrow> scheduled s'' = scheduled s \<and> timeouts s'' = [])"
proof -
  have o: "timers_owned s" using assms(1) by (rule reachable_timers_owned)
  have ge: "5 \<le> reconnectAttempts s" using assms(2) by simp
  note x = exhausted_close [OF o ge assms(3)]
  have "\<forall>es s''. run es s' = Some s'' \<longrightarrow> scheduled s'' = scheduled s \<and> timeouts s'' = []"
    using at_rest_run [OF x(1)] x(2) by (auto simp: at_rest_def)
  with x show ?thesis by (simp add: at_rest_def)
qed

lemma run_snoc:
  "run (es @ [e]) s = (case run es s of None \<Rightarrow> None | Some s' \<Rightarrow> deliver e s')"
  by (induction es arbitrary: s) (auto split: option.splits)

theorem budget_exhausted_witness:
  "map_option reconnectAttempts (run five_failures (constructor True True)) = Some 5 \<and>
   map_option scheduled (run five_failures (constructor True True)) =
     Some [5000, 10000, 15000, 20000, 25000] \<and>
   map_option scheduled (run (five_failures @ [EvClose False]) (constructor True True)) =
     Some [5000, 10000, 15000, 20000, 25000] \<and>
   map_option toasts (run (five_failures @ [EvClose False]) (constructor True True)) =
     Some [connection_lost]"
proof -
  obtain s where r: "run five_failures (constructor True True) = Some s"
    and a: "reconnectAttempts s = 5" and t: "toasts s = []" and am: "accountsManager s"
    and sch: "scheduled s = [5000, 10000, 15000, 20000, 25000]"
    and sock: "socket s = Some CONNECTING"
    using five_failures_state [of True] by simp
  have re: "reachable s" using run_reachable [OF reachable_constructor r] .
  obtain s' where d: "deliver (EvClose False) s = Some s'" using sock by simp
  from budget_exhausted [OF re a d] am t sch
  have "scheduled s' = [5000, 10000, 15000, 20000, 25000]" and "toasts s' = [connection_lost]"
    by simp_all
  with r a sch d show ?thesis by (simp add: run_snoc)
qed

text \<open>
  On a page where \<^verbatim>\<open>window.accountsManager\<close> is not set the exhausted budget surfaces no
  notice: the claim as first stated, with the notice shown on every page, fails there.
\<close>

theorem notice_needs_accountsManager:
  "map_option reconnectAttempts (run five_failures (constructor True False)) = Some 5 \<and>
   map_option toasts (run (five_failures @ [EvClose False]) (constructor True False)) = Some []"
  unfolding run_snoc five_failures_state
  by (simp add: onclose_unclean stopHeartbeat_def handleReconnect_def maxReconnectAttempts_def
      onMaxReconnectAttemptsReached_def)



subsection \<open>The heartbeat\<close>

lemma connect_timers:
  "intervals (connect ok s) = intervals s" "heartbeatTimer (connect ok s) = heartbeatTimer s"
  by (cases ok; simp add: connect_def setupEventHandlers_def handleReconnect_timers)+

text \<open>
  Claim C4, as amended. In every state the user-scoped client reaches through its event loop,
  the heartbeat timer is live whenever the socket is OPEN (the state Connected) and only
  while the socket is OPEN or CLOSING; the field \<open>heartbeatTimer\<close> is set exactly while the
  timer is live. So the timer never fires while the client is disconnected or connecting; an
  event that makes the timer live is an open event; after every close event and after
  \<^verbatim>\<open>disconnect\<close> no timer is live.
\<close>

theorem heartbeat_while_connected:
  assumes "reachable s"
  shows "(intervals s \<noteq> [] \<longrightarrow> socket s = Some OPEN \<or> socket s = Some CLOSING) \<and>
         (socket s = Some OPEN \<longrightarrow> intervals s \<noteq> []) \<and>
         ((heartbeatTimer s \<noteq> None) = (intervals s \<noteq> [])) \<and>
         (\<forall>h now. deliver (EvHeartbeat h now) s \<noteq> None \<longrightarrow>
            socket s = Some OPEN \<or> socket s = Some CLOSING) \<and>
         (\<forall>e s'. deliver e s = Some s' \<and> intervals s = [] \<and> intervals s' \<noteq> [] \<longrightarrow> e = EvOpen) \<and>
         (\<forall>wasClean s'. deliver (EvClose wasClean) s = Some s' \<longrightarrow>
            intervals s' = [] \<and> heartbeatTimer s' = None) \<and>
         intervals (disconnect s) = [] \<and> heartbeatTimer (disconnect s) = None"
proof -
  have o: "timers_owned s" using assms by (rule reachable_timers_owned)
  have i: "intervals s \<noteq> [] \<longrightarrow> socket s = Some OPEN \<or> socket s = Some CLOSING"
    and j: "socket s = Some OPEN \<longrightarrow> intervals s \<noteq> []"
    and h: "(heartbeatTimer s \<noteq> None) = (intervals s \<noteq> [])"
    using o by (cases "heartbeatTimer s"; simp add: timers_owned_def)+
  have f: "\<forall>h now. deliver (EvHeartbeat h now) s \<noteq> None \<longrightarrow>
      socket s = Some OPEN \<or> socket s = Some CLOSING"
    using i by (auto split: if_splits)
  have cl: "\<forall>wasClean s'. deliver (EvClose wasClean) s = Some s' \<longrightarrow>
            intervals s' = [] \<and> heartbeatTimer s' = None"
  proof (intro allI impI)
    fix wc s'
    assume d: "deliver (EvClose wc) s = Some s'"
    have o': "timers_owned s'" using o d by (rule timers_owned_step)
    from d have "s' = onclose wc (s\<lparr>socket := Some CLOSED\<rparr>)" by (auto split: if_splits)
    then have "socket s' = Some CLOSED"
      by (cases wc) (simp_all add: onclose_clean onclose_unclean stopHeartbeat_fields
            handleReconnect_timers)
    with o' show "intervals s' = [] \<and> heartbeatTimer s' = None"
      by (cases "heartbeatTimer s'"; simp add: timers_owned_def)
  qed
  have di: "intervals (disconnect s) = [] \<and> heartbeatTimer (disconnect s) = None"
    using stopHeartbeat_owned(1,2) [OF o]
    by (cases "socket s") (simp_all add: disconnect_def Let_def stopHeartbeat_fields)
  have st: "\<forall>e s'. deliver e s = Some s' \<and> intervals s = [] \<and> intervals s' \<noteq> [] \<longrightarrow> e = EvOpen"
  proof (intro allI impI)
    fix e s'
    assume a: "deliver e s = Some s' \<and> intervals s = [] \<and> intervals s' \<noteq> []"
    then have d: "deliver e s = Some s'" and e0: "intervals s = []" and e1: "intervals s' \<noteq> []"
      by simp_all
    show "e = EvOpen"
    proof (cases e)
      case EvOpen
      then show ?thesis .
    next
      case (EvMessage t)
      with d have "s' = onmessage t s" by (auto split: if_splits)
      with onmessage_timers [of t s] e0 e1 show ?thesis by simp
    next
      case EvClosing
      with d e0 e1 show ?thesis by (auto split: if_splits)
    next
      case (EvClose wc)
      with d cl e1 show ?thesis by blast
    next
      case EvError
      with d e0 e1 show ?thesis by (auto simp: onerror_def onError_def split: if_splits)
    next
      case (EvTimeout k ok)
      with d have "s' = connect ok (s\<lparr>timeouts := take k (timeouts s) @ drop (Suc k) (timeouts s)\<rparr>)"
        by (auto split: if_splits)
      with e0 e1 show ?thesis by (simp add: connect_timers)
    next
      case (EvHeartbeat h now)
      with d e0 show ?thesis by (auto split: if_splits)
    next
      case (CallSend ty d')
      with d have "s' = snd (sendMessage ty d' s)" by simp
      with sendMessage_timers [of ty d' s] e0 e1 show ?thesis by simp
    next
      case CallDisconnect
      with d have "s' = disconnect s" by simp
      with di e1 show ?thesis by simp
    qed
  qed
  from i j h f st cl di show ?thesis by blast
qed

theorem heartbeat_while_connected_witness:
  "map_option socket (run [EvOpen] (constructor True True)) = Some (Some OPEN) \<and>
   map_option intervals (run [EvOpen] (constructor True True)) = Some [1] \<and>
   map_option heartbeatTimer (run [EvOpen] (constructor True True)) = Some (Some 1) \<and>
   map_option intervals (run [EvOpen, EvClose True] (constructor True True)) = Some [] \<and>
   map_option intervals (run [EvOpen, EvClosing, EvClose False] (constructor True True)) = Some [] \<and>
   map_option intervals (run [EvOpen, CallDisconnect] (constructor True True)) = Some [] \<and>
   socket (constructor True True) = Some CONNECTING \<and>
   intervals (constructor True True) = [] \<and>
   deliver (EvHeartbeat 1 0) (constructor True True) = None"
proof -
  have r0: "reachable (constructor True True)" by (rule reachable_constructor)
  have a: "map_option socket (run [EvOpen] (constructor True True)) = Some (Some OPEN)"
    by (simp add: ws_defs)
  have b: "map_option intervals (run [EvOpen] (constructor True True)) = Some [1]"
    by (simp add: ws_defs)
  have c: "map_option heartbeatTimer (run [EvOpen] (constructor True True)) = Some (Some 1)"
    by (simp add: ws_defs)
  have d: "map_option intervals (run [EvOpen, EvClose True] (constructor True True)) = Some []"
    by (simp add: ws_defs Let_def)
  have e: "map_option intervals (run [EvOpen, EvClosing, EvClose False] (constructor True True)) = Some []"
    by (simp add: ws_defs Let_def)
  have f: "map_option intervals (run [EvOpen, CallDisconnect] (constructor True True)) = Some []"
    by (simp add: ws_defs Let_def)
  have g: "socket (constructor True True) = Some CONNECTING"
    by (simp add: ws_defs)
  from heartbeat_while_connected [OF r0] g
  have k: "intervals (constructor True True) = []"
    and l: "deliver (EvHeartbeat 1 0) (constructor True True) = None"
    by auto
  from a b c d e f g k l show ?thesis by blast
qed

text \<open>
  The timer is live outside the state Connected, so the claim as first stated, live if and
  only if connected, fails. When the server starts the closing handshake the socket is
  CLOSING with the timer live until the close event, and a callback of the timer in between
  only logs the warning of \<^verbatim>\<open>sendMessage\<close>. And \<^verbatim>\<open>connect\<close> does not stop the heartbeat:
  called on a manager whose socket is open, it leaves the timer live with the new socket
  CONNECTING.
\<close>

theorem heartbeat_live_outside_connected:
  "map_option socket (run [EvOpen, EvClosing] (constructor True True)) = Some (Some CLOSING) \<and>
   map_option intervals (run [EvOpen, EvClosing] (constructor True True)) = Some [1] \<and>
   map_option console (run [EvOpen, EvClosing, EvHeartbeat 1 0] (constructor True True)) =
     Some [Log_connected, Warn_not_connected ''heartbeat'' (HeartbeatData 0)] \<and>
   map_option (\<lambda>s. socket (connect True s)) (run [EvOpen] (constructor True True)) =
     Some (Some CONNECTING) \<and>
   map_option (\<lambda>s. intervals (connect True s)) (run [EvOpen] (constructor True True)) = Some [1]"
  by (simp add: ws_defs)

subsection \<open>Clean closes\<close>

text \<open>
  Claim C3. An explicit \<^verbatim>\<open>disconnect\<close> should never be followed by a reconnect. The handler
  of the close event decides by the flag \<^verbatim>\<open>wasClean\<close> of the event alone. A manager that is
  told to disconnect while its socket is still connecting gets a close event that is not
  clean: the handler takes it for a failure and schedules a reconnect after 5000 ms.
\<close>

theorem disconnect_while_connecting_reconnects:
  "socket (constructor True True) = Some CONNECTING \<and>
   map_option socket (run [CallDisconnect] (constructor True True)) = Some (Some CLOSING) \<and>
   map_option scheduled (run [CallDisconnect, EvClose False] (constructor True True)) = Some [5000] \<and>
   map_option timeouts (run [CallDisconnect, EvClose False] (constructor True True)) = Some [5000]"
  by (simp add: ws_defs Let_def)

text \<open>
  What the test of the flag does give: a close event that is clean schedules nothing, whatever
  the state before, and neither does the call of \<^verbatim>\<open>disconnect\<close> by itself.
\<close>

lemma wasClean_close_schedules_nothing:
  "scheduled (onclose True s) = scheduled s \<and> timeouts (onclose True s) = timeouts s \<and>
   scheduled (disconnect s) = scheduled s \<and> timeouts (disconnect s) = timeouts s"
proof -
  have d: "scheduled (disconnect s) = scheduled s \<and> timeouts (disconnect s) = timeouts s"
    by (cases "socket s") (simp_all add: disconnect_def Let_def stopHeartbeat_fields)
  have c: "scheduled (onclose True s) = scheduled s \<and> timeouts (onclose True s) = timeouts s"
    by (simp add: onclose_clean stopHeartbeat_fields)
  from c d show ?thesis by simp
qed

text \<open>
  The room-scoped client follows the other policy of the two: its handler does not look at
  the event and schedules a reconnect after 3000 ms on every close, with no limit.
\<close>

lemma room_close_always_reconnects:
  "room_scheduled (room_onclose wasClean r) = room_scheduled r @ [3000] \<and>
   room_timeouts (room_onclose wasClean r) = room_timeouts r @ [3000]"
  by (simp add: room_onclose_def)



subsection \<open>Sending while not connected\<close>

text \<open>
  Claim C2, as amended. \<^verbatim>\<open>sendMessage\<close> of the user-scoped client never throws; when there is
  no socket or the socket is not OPEN it transmits no frame and logs one warning, changing
  nothing else. \<^verbatim>\<open>sendMessage\<close> of the room-scoped client has no such check: while the socket
  is not OPEN it transmits no frame either, but it logs nothing, and while the socket is
  CONNECTING the InvalidStateError of \<^verbatim>\<open>send\<close> reaches the caller whenever the trimmed input
  is not empty.
\<close>

theorem send_while_not_connected:
  "fst (sendMessage ty d s) = None \<and>
   (socket s \<noteq> Some OPEN \<longrightarrow>
      sendMessage ty d s = (None, s\<lparr>console := console s @ [Warn_not_connected ty d]\<rparr>) \<and>
      wire (snd (sendMessage ty d s)) = wire s) \<and>
   (room_socket r \<noteq> OPEN \<longrightarrow>
      room_wire (snd (room_sendMessage r)) = room_wire r \<and>
      room_console (snd (room_sendMessage r)) = room_console r) \<and>
   (room_socket r = CONNECTING \<and> trim (room_input r) \<noteq> [] \<longrightarrow>
      room_sendMessage r = (Some InvalidStateError, r))"
proof -
  have a: "fst (sendMessage ty d s) = None"
    by (simp add: sendMessage_def browser_send_def)
  have b: "socket s \<noteq> Some OPEN \<longrightarrow>
      sendMessage ty d s = (None, s\<lparr>console := console s @ [Warn_not_connected ty d]\<rparr>) \<and>
      wire (snd (sendMessage ty d s)) = wire s"
    by (simp add: sendMessage_def)
  have c: "room_socket r \<noteq> OPEN \<longrightarrow>
      room_wire (snd (room_sendMessage r)) = room_wire r \<and>
      room_console (snd (room_sendMessage r)) = room_console r"
    by (cases "room_socket r")
      (simp_all add: room_sendMessage_def Let_def browser_send_def stopTyping_def cancelReply_def)
  have e: "room_socket r = CONNECTING \<and> trim (room_input r) \<noteq> [] \<longrightarrow>
      room_sendMessage r = (Some InvalidStateError, r)"
    by (simp add: room_sendMessage_def Let_def browser_send_def)
  from a b c e show ?thesis by blast
qed

text \<open>
  In the runs below the user has typed \<^verbatim>\<open>hi\<close> (the code units 104 and 105), once between
  two spaces; an input of one no-break space is empty after trimming, and nothing is sent.
\<close>

theorem send_while_not_connected_witness:
  "socket (constructor True True) = Some CONNECTING \<and>
   fst (sendMessage ''typing'' (TypingData True None) (constructor True True)) = None \<and>
   wire (snd (sendMessage ''typing'' (TypingData True None) (constructor True True))) = [] \<and>
   console (snd (sendMessage ''typing'' (TypingData True None) (constructor True True))) =
     [Warn_not_connected ''typing'' (TypingData True None)] \<and>
   room_socket (room_constructor [32, 104, 105, 32]) = CONNECTING \<and>
   trim (room_input (room_constructor [32, 104, 105, 32])) = [104, 105] \<and>
   fst (room_sendMessage (room_constructor [32, 104, 105, 32])) = Some InvalidStateError \<and>
   trim [160] = [] \<and>
   room_sendMessage (room_constructor [160]) = (None, room_constructor [160])"
proof -
  have c: "socket (constructor True True) = Some CONNECTING" "wire (constructor True True) = []"
    "console (constructor True True) = []"
    by (simp_all add: ws_defs)
  have rc: "room_socket (room_constructor [32, 104, 105, 32]) = CONNECTING"
    and tr: "trim (room_input (room_constructor [32, 104, 105, 32])) = [104, 105]"
    by (simp_all add: room_constructor_def room_constructor_on_def connectWebSocket_def trim_def
        is_white_space_def)
  have n: "trim [160] = []"
    by (simp add: trim_def is_white_space_def)
  have m: "room_sendMessage (room_constructor [160]) = (None, room_constructor [160])"
    by (simp add: room_sendMessage_def room_constructor_def room_constructor_on_def
        connectWebSocket_def trim_def is_white_space_def)
  from send_while_not_connected
    [of "''typing''" "TypingData True None" "constructor True True"
      "room_constructor [32, 104, 105, 32]"]
    c rc tr
  have a: "fst (sendMessage ''typing'' (TypingData True None) (constructor True True)) = None"
    and b: "wire (snd (sendMessage ''typing'' (TypingData True None) (constructor True True))) = []"
    and d: "console (snd (sendMessage ''typing'' (TypingData True None) (constructor True True))) =
     [Warn_not_connected ''typing'' (TypingData True None)]"
    and e: "fst (room_sendMessage (room_constructor [32, 104, 105, 32])) = Some InvalidStateError"
    by simp_all
  from c(1) a b d rc tr e n m show ?thesis by blast
qed

text \<open>
  The scenario of the claim on the room-scoped client, a chat message sent while the socket is
  connecting: the call throws and nothing is logged.
\<close>

theorem room_send_while_connecting_throws:
  "room_socket (room_constructor [104, 105]) = CONNECTING \<and>
   fst (room_sendMessage (room_constructor [104, 105])) = Some InvalidStateError \<and>
   room_console (snd (room_sendMessage (room_constructor [104, 105]))) = []"
  by (simp add: room_sendMessage_def room_constructor_def room_constructor_on_def
      connectWebSocket_def trim_def is_white_space_def browser_send_def Let_def)

subsection \<open>The dispatchers\<close>

lemma handleNotification_ui:
  "ui (snd (handleNotification b s)) = ui s @ [(HandleNotification, b)]"
  "console (snd (handleNotification b s)) = console s"
  by (cases "notificationApi s"; simp add: handleNotification_def invoke_def Let_def)+

lemma updateReaction_ui:
  "room_ui (snd (updateReaction b r)) = room_ui r @ [(UpdateReaction, b)]"
  by (cases "room_page r UpdateReaction b")
    (simp_all add: updateReaction_def room_invoke_def Let_def)

text \<open>
  Claim C5, as amended. Both dispatchers route a decoded message by its type to exactly one
  handler: for each recognised type the one handler of the type is called, once, with the
  message (what the handler then does on the page is the handler's, an exception included).
  A message of any other type, or without a type, calls no handler and throws nothing; the
  user-scoped dispatcher logs it and changes nothing else, the room-scoped dispatcher drops it
  without a log and changes nothing at all.
\<close>

theorem dispatch_by_tag:
  "ui (snd (handleMessage (JData (Some ''user_status'') b) s)) = ui s @ [(HandleUserStatus, b)] \<and>
   ui (snd (handleMessage (JData (Some ''notification'') b) s)) = ui s @ [(HandleNotification, b)] \<and>
   ui (snd (handleMessage (JData (Some ''chat_message'') b) s)) = ui s @ [(HandleChatMessage, b)] \<and>
   ui (snd (handleMessage (JData (Some ''typing_indicator'') b) s)) =
     ui s @ [(HandleTypingIndicator, b)] \<and>
   ui (snd (handleMessage (JData (Some ''user_joined'') b) s)) = ui s @ [(HandleUserPresence, b)] \<and>
   ui (snd (handleMessage (JData (Some ''user_left'') b) s)) = ui s @ [(HandleUserPresence, b)] \<and>
   (ty \<notin> {Some ''user_status'', Some ''notification'', Some ''chat_message'',
            Some ''typing_indicator'', Some ''user_joined'', Some ''user_left''} \<longrightarrow>
      handleMessage (JData ty b) s = (None, s\<lparr>console := console s @ [Log_unknown_type ty]\<rparr>)) \<and>
   room_ui (snd (handleWebSocketMessage (JData (Some ''chat_message'') b) r)) =
     room_ui r @ [(AddMessage, b)] \<and>
   room_ui (snd (handleWebSocketMessage (JData (Some ''typing_indicator'') b) r)) =
     room_ui r @ [(UpdateTypingIndicator, b)] \<and>
   room_ui (snd (handleWebSocketMessage (JData (Some ''user_presence'') b) r)) =
     room_ui r @ [(UpdateUserPresence, b)] \<and>
   room_ui (snd (handleWebSocketMessage (JData (Some ''message_reaction'') b) r)) =
     room_ui r @ [(UpdateReaction, b)] \<and>
   (ty \<notin> {Some ''chat_message'', Some ''typing_indicator'', Some ''user_presence'',
            Some ''message_reaction''} \<longrightarrow>
      handleWebSocketMessage (JData ty b) r = (None, r))"
proof -
  have ws: "ui (snd (handleMessage (JData (Some ''user_status'') b) s)) = ui s @ [(HandleUserStatus, b)]"
    "ui (snd (handleMessage (JData (Some ''chat_message'') b) s)) = ui s @ [(HandleChatMessage, b)]"
    "ui (snd (handleMessage (JData (Some ''typing_indicator'') b) s)) =
       ui s @ [(HandleTypingIndicator, b)]"
    "ui (snd (handleMessage (JData (Some ''user_joined'') b) s)) = ui s @ [(HandleUserPresence, b)]"
    "ui (snd (handleMessage (JData (Some ''user_left'') b) s)) = ui s @ [(HandleUserPresence, b)]"
    by (simp_all add: handleMessage_def handleUserStatus_def handleChatMessage_def
        handleTypingIndicator_def handleUserPresence_def invoke_def)
  have n: "ui (snd (handleMessage (JData (Some ''notification'') b) s)) =
      ui s @ [(HandleNotification, b)]"
    by (simp add: handleMessage_def handleNotification_ui)
  have u: "ty \<notin> {Some ''user_status'', Some ''notification'', Some ''chat_message'',
            Some ''typing_indicator'', Some ''user_joined'', Some ''user_left''} \<longrightarrow>
      handleMessage (JData ty b) s = (None, s\<lparr>console := console s @ [Log_unknown_type ty]\<rparr>)"
    by (simp add: handleMessage_def)
  have rm: "room_ui (snd (handleWebSocketMessage (JData (Some ''chat_message'') b) r)) =
       room_ui r @ [(AddMessage, b)]"
    "room_ui (snd (handleWebSocketMessage (JData (Some ''typing_indicator'') b) r)) =
       room_ui r @ [(UpdateTypingIndicator, b)]"
    "room_ui (snd (handleWebSocketMessage (JData (Some ''user_presence'') b) r)) =
       room_ui r @ [(UpdateUserPresence, b)]"
    by (simp_all add: handleWebSocketMessage_def addMessage_def updateTypingIndicator_def
        updateUserPresence_def room_invoke_def Let_def)
  have rr: "room_ui (snd (handleWebSocketMessage (JData (Some ''message_reaction'') b) r)) =
       room_ui r @ [(UpdateReaction, b)]"
    by (simp add: handleWebSocketMessage_def updateReaction_ui)
  have ru: "ty \<notin> {Some ''chat_message'', Some ''typing_indicator'', Some ''user_presence'',
            Some ''message_reaction''} \<longrightarrow>
      handleWebSocketMessage (JData ty b) r = (None, r)"
    by (simp add: handleWebSocketMessage_def)
  from ws n u rm rr ru show ?thesis by blast
qed

theorem dispatch_by_tag_witness:
  "handleMessage (JData (Some ''bogus'') ''{}'') (constructor True True) =
     (None, (constructor True True)\<lparr>console := [Log_unknown_type (Some ''bogus'')]\<rparr>) \<and>
   handleMessage (JData None ''{}'') (constructor True True) =
     (None, (constructor True True)\<lparr>console := [Log_unknown_type None]\<rparr>) \<and>
   ui (snd (handleMessage (JData (Some ''user_left'') ''{}'') (constructor True True))) =
     [(HandleUserPresence, ''{}'')] \<and>
   room_ui (snd (handleWebSocketMessage (JData (Some ''user_presence'') ''{}'') (room_constructor []))) =
     [(UpdateUserPresence, ''{}'')] \<and>
   handleWebSocketMessage (JData (Some ''user_joined'') ''{}'') (room_constructor []) =
     (None, room_constructor [])"
proof -
  have c: "console (constructor True True) = []" "ui (constructor True True) = []"
    by (simp_all add: ws_defs)
  have rc: "room_ui (room_constructor []) = []"
    by (simp add: room_constructor_def room_constructor_on_def connectWebSocket_def)
  from dispatch_by_tag [of "''{}''" "constructor True True" "Some ''bogus''" "room_constructor []"]
  have a: "handleMessage (JData (Some ''bogus'') ''{}'') (constructor True True) =
     (None, (constructor True True)\<lparr>console := [Log_unknown_type (Some ''bogus'')]\<rparr>)"
    and b: "ui (snd (handleMessage (JData (Some ''user_left'') ''{}'') (constructor True True))) =
     [(HandleUserPresence, ''{}'')]"
    and p: "room_ui (snd (handleWebSocketMessage (JData (Some ''user_presence'') ''{}'')
        (room_constructor []))) = [(UpdateUserPresence, ''{}'')]"
    unfolding c rc by simp_all
  from dispatch_by_tag [of "''{}''" "constructor True True" None "room_constructor []"]
  have d: "handleMessage (JData None ''{}'') (constructor True True) =
     (None, (constructor True True)\<lparr>console := [Log_unknown_type None]\<rparr>)"
    unfolding c by simp
  from dispatch_by_tag [of "''{}''" "constructor True True" "Some ''user_joined''"
      "room_constructor []"]
  have e: "handleWebSocketMessage (JData (Some ''user_joined'') ''{}'') (room_constructor []) =
     (None, room_constructor [])"
    by simp
  from a d b p e show ?thesis by blast
qed

text \<open>
  The room-scoped dispatcher logs nothing for a type it does not know: the claim as first
  stated, with the drop logged, fails there.
\<close>

theorem room_unknown_tag_not_logged:
  "room_console (room_constructor []) = [] \<and>
   room_console (snd (handleWebSocketMessage (JData (Some ''bogus'') ''{}'') (room_constructor []))) = []"
  by (simp add: handleWebSocketMessage_def room_constructor_def room_constructor_on_def
      connectWebSocket_def)


subsection \<open>Frames that fail to decode\<close>

lemma handleMessage_console:
  "fst (handleMessage d (s\<lparr>console := c\<rparr>)) = fst (handleMessage d s) \<and>
   ui (snd (handleMessage d (s\<lparr>console := c\<rparr>))) = ui (snd (handleMessage d s)) \<and>
   toasts (snd (handleMessage d (s\<lparr>console := c\<rparr>))) = toasts (snd (handleMessage d s))"
  by (cases d; cases "notificationApi s")
    (simp_all add: handleMessage_def handleUserStatus_def handleNotification_def
      handleChatMessage_def handleTypingIndicator_def handleUserPresence_def invoke_def Let_def)

lemma onmessage_ui:
  "ui (onmessage t s) = (case t of Malformed x \<Rightarrow> ui s | WellFormed d \<Rightarrow> ui (snd (handleMessage d s)))"
  "toasts (onmessage t s) =
     (case t of Malformed x \<Rightarrow> toasts s | WellFormed d \<Rightarrow> toasts (snd (handleMessage d s)))"
proof -
  show "ui (onmessage t s) = (case t of Malformed x \<Rightarrow> ui s | WellFormed d \<Rightarrow> ui (snd (handleMessage d s)))"
  proof (cases t)
    case (Malformed x)
    then show ?thesis by (simp add: onmessage_def JSON_parse_def)
  next
    case (WellFormed d)
    obtain e s1 where h: "handleMessage d s = (e, s1)" by (cases "handleMessage d s")
    with WellFormed show ?thesis
      by (cases e) (simp_all add: onmessage_def JSON_parse_def)
  qed
  show "toasts (onmessage t s) =
     (case t of Malformed x \<Rightarrow> toasts s | WellFormed d \<Rightarrow> toasts (snd (handleMessage d s)))"
  proof (cases t)
    case (Malformed x)
    then show ?thesis by (simp add: onmessage_def JSON_parse_def)
  next
    case (WellFormed d)
    obtain e s1 where h: "handleMessage d s = (e, s1)" by (cases "handleMessage d s")
    with WellFormed show ?thesis
      by (cases e) (simp_all add: onmessage_def JSON_parse_def)
  qed
qed

lemma onmessage_after_log:
  "ui (onmessage t (s\<lparr>console := c\<rparr>)) = ui (onmessage t s) \<and>
   toasts (onmessage t (s\<lparr>console := c\<rparr>)) = toasts (onmessage t s)"
  using handleMessage_console [where s = s and c = c]
  by (cases t) (simp_all add: onmessage_ui)

text \<open>
  Claim C6, as amended. In the user-scoped client a frame that fails to decode is caught and
  logged in the handler of the message event: the state is unchanged but for the log entry,
  the socket stays open, and a frame that follows is processed as it would have been without
  the malformed one. In the room-scoped client the SyntaxError is not caught: it escapes the
  handler, which leaves the state of the client as it was.
\<close>

theorem malformed_frame_is_dropped:
  "onmessage (Malformed x) s = s\<lparr>console := console s @ [Error_parsing]\<rparr> \<and>
   (socket s = Some OPEN \<longrightarrow>
      deliver (EvMessage (Malformed x)) s = Some (s\<lparr>console := console s @ [Error_parsing]\<rparr>) \<and>
      (\<exists>s'. run [EvMessage (Malformed x), EvMessage t] s = Some s' \<and>
            socket s' = Some OPEN \<and> heartbeatTimer s' = heartbeatTimer s \<and>
            ui s' = ui (onmessage t s) \<and> toasts s' = toasts (onmessage t s))) \<and>
   room_onmessage (Malformed x) r = (Some SyntaxError, r)"
proof -
  let ?s1 = "s\<lparr>console := console s @ [Error_parsing]\<rparr>"
  have a: "onmessage (Malformed x) s = ?s1"
    by (simp add: onmessage_def JSON_parse_def)
  have b: "room_onmessage (Malformed x) r = (Some SyntaxError, r)"
    by (simp add: room_onmessage_def JSON_parse_def)
  have c: "socket s = Some OPEN \<longrightarrow>
      deliver (EvMessage (Malformed x)) s = Some ?s1 \<and>
      (\<exists>s'. run [EvMessage (Malformed x), EvMessage t] s = Some s' \<and>
            socket s' = Some OPEN \<and> heartbeatTimer s' = heartbeatTimer s \<and>
            ui s' = ui (onmessage t s) \<and> toasts s' = toasts (onmessage t s))"
  proof
    assume o: "socket s = Some OPEN"
    then have d: "deliver (EvMessage (Malformed x)) s = Some ?s1" using a by simp
    have r: "run [EvMessage (Malformed x), EvMessage t] s = Some (onmessage t ?s1)"
      using o a by simp
    have f: "socket (onmessage t ?s1) = Some OPEN" "heartbeatTimer (onmessage t ?s1) = heartbeatTimer s"
      using onmessage_timers [of t ?s1] o by simp_all
    from d r f onmessage_after_log [where t = t and s = s and c = "console s @ [Error_parsing]"]
    show "deliver (EvMessage (Malformed x)) s = Some ?s1 \<and>
      (\<exists>s'. run [EvMessage (Malformed x), EvMessage t] s = Some s' \<and>
            socket s' = Some OPEN \<and> heartbeatTimer s' = heartbeatTimer s \<and>
            ui s' = ui (onmessage t s) \<and> toasts s' = toasts (onmessage t s))"
      by simp
  qed
  from a b c show ?thesis by blast
qed

theorem malformed_frame_is_dropped_witness:
  "map_option console (run [EvOpen, EvMessage (Malformed ''{'')] (constructor True True)) =
     Some [Log_connected, Error_parsing] \<and>
   map_option socket (run [EvOpen, EvMessage (Malformed ''{'')] (constructor True True)) =
     Some (Some OPEN) \<and>
   map_option ui
     (run [EvOpen, EvMessage (Malformed ''{''),
           EvMessage (WellFormed (JData (Some ''chat_message'') ''hi''))]
        (constructor True True)) = Some [(HandleChatMessage, ''hi'')] \<and>
   onmessage (Malformed ''{'') (constructor True True) =
     (constructor True True)\<lparr>console := [Error_parsing]\<rparr> \<and>
   fst (room_onmessage (Malformed ''{'') (room_constructor [])) = Some SyntaxError"
proof -
  have a: "map_option console (run [EvOpen, EvMessage (Malformed ''{'')] (constructor True True)) =
     Some [Log_connected, Error_parsing]"
    by (simp add: ws_defs)
  have b: "map_option socket (run [EvOpen, EvMessage (Malformed ''{'')] (constructor True True)) =
     Some (Some OPEN)"
    by (simp add: ws_defs)
  have c: "map_option ui
     (run [EvOpen, EvMessage (Malformed ''{''),
           EvMessage (WellFormed (JData (Some ''chat_message'') ''hi''))]
        (constructor True True)) = Some [(HandleChatMessage, ''hi'')]"
    by (simp add: ws_defs)
  have k: "console (constructor True True) = []"
    by (simp add: ws_defs)
  from malformed_frame_is_dropped [of "''{''" "constructor True True" _ "room_constructor []"]
  have d: "onmessage (Malformed ''{'') (constructor True True) =
     (constructor True True)\<lparr>console := [Error_parsing]\<rparr>"
    and e: "fst (room_onmessage (Malformed ''{'') (room_constructor [])) = Some SyntaxError"
    unfolding k by simp_all
  from a b c d e show ?thesis by blast
qed

text \<open>
  In the room-scoped client the decoding error is neither caught nor logged: the claim as
  first stated fails there.
\<close>

theorem room_malformed_frame_escapes:
  "room_onmessage (Malformed ''{'') (room_constructor []) = (Some SyntaxError, room_constructor []) \<and>
   room_console (room_constructor []) = []"
  by (simp add: room_onmessage_def JSON_parse_def room_constructor_def room_constructor_on_def
      connectWebSocket_def)

end
